theory Spec2Isabelle
  imports Complex_Main
begin

section \<open>Arrays and scalars\<close>

text \<open>
  The embedding works over exact real arithmetic: a one-dimensional numpy array is a list
  of reals, and rounding is not modelled. What is modelled of the floating-point
  behaviour is the point where numpy leaves the reals: a scalar that numpy returns as
  \<^verbatim>\<open>nan\<close> (\<^verbatim>\<open>0/0\<close>, the square root of a negative number) is \<open>None\<close> in a
  \<open>real option\<close>, and an array all of whose entries are \<^verbatim>\<open>nan\<close> is \<open>NaNRow\<close>.
  The arrays of one store have one length, the dimension of the embedding. Arithmetic
  on arrays of different lengths, which numpy rejects or broadcasts, is not modelled:
  the operations below stop at the shorter list, and the theorems on them assume equal
  lengths.
\<close>

type_synonym word = string
type_synonym vector = "real list"

definition dot :: "vector \<Rightarrow> vector \<Rightarrow> real" where
  "dot v u = sum_list (map2 (\<lambda>a b. a * b) v u)"

definition linalg_norm :: "vector \<Rightarrow> real" where
  \<comment> \<open>\<^verbatim>\<open>np.linalg.norm\<close>.\<close>
  "linalg_norm v = sqrt (dot v v)"

definition vadd :: "vector \<Rightarrow> vector \<Rightarrow> vector" where
  "vadd v u = map2 (\<lambda>a b. a + b) v u"

definition vsub :: "vector \<Rightarrow> vector \<Rightarrow> vector" where
  "vsub v u = map2 (\<lambda>a b. a - b) v u"

definition smul :: "real \<Rightarrow> vector \<Rightarrow> vector" where
  "smul c v = map (\<lambda>a. c * a) v"

definition sdiv :: "vector \<Rightarrow> real \<Rightarrow> vector" where
  "sdiv v c = map (\<lambda>a. a / c) v"

definition vneg :: "vector \<Rightarrow> vector" where
  "vneg v = map uminus v"

fun vsum :: "vector list \<Rightarrow> vector" where
  \<comment> \<open>\<^verbatim>\<open>np.sum(vectors, axis=0)\<close> on a non-empty list of arrays of one shape.\<close>
  "vsum [] = []"
| "vsum (v # vs) = foldl vadd v vs"

definition np_sqrt :: "real \<Rightarrow> real option" where
  \<comment> \<open>\<^verbatim>\<open>np.sqrt\<close>: \<^verbatim>\<open>nan\<close> (with a warning, no exception) below zero.\<close>
  "np_sqrt x = (if x < 0 then None else Some (sqrt x))"

section \<open>Errors\<close>

datatype error =
    TypeError
  | ValueError_method string
  | ValueError_same_ends word
  | KeyError word
  | IndexError
  | RuntimeError_direction_not_identified
  | RuntimeError_first_pc real
  | Unmodelled string
    \<comment> \<open>Not a Python exception: the run leaves the fragment that the embedding follows
        (an array of \<^verbatim>\<open>nan\<close> enters the arithmetic, or a helper is used where the
        specification leaves its result open). No theorem below reads it as a raise.\<close>

definition ebind :: "error + 'a \<Rightarrow> ('a \<Rightarrow> error + 'b) \<Rightarrow> error + 'b" where
  \<comment> \<open>Sequencing: an exception of the first computation ends the run.\<close>
  "ebind x f = (case x of Inl e \<Rightarrow> Inl e | Inr v \<Rightarrow> f v)"

section \<open>Geometry helpers (\<^verbatim>\<open>utils\<close>)\<close>

text \<open>
  Modelled from the spec: the module \<^verbatim>\<open>ethically/we/utils.py\<close>, from which
  \<^verbatim>\<open>core.py\<close> imports \<^verbatim>\<open>normalize\<close>, \<^verbatim>\<open>cosine_similarity\<close>,
  \<^verbatim>\<open>project_vector\<close>, \<^verbatim>\<open>reject_vector\<close>, \<^verbatim>\<open>project_reject_vector\<close> and
  \<^verbatim>\<open>update_word_vector\<close>, is missing. The definitions follow section 4.1 of the
  specification: \<open>normalize v = v / \<parallel>v\<parallel>\<close>, \<open>cosine_similarity a b = (a \<cdot> b) / (\<parallel>a\<parallel> \<parallel>b\<parallel>)\<close>,
  \<open>project_vector v d = (v \<cdot> d) d\<close>, \<open>reject_vector v d = v - project_vector v d\<close>.
  For a vector of norm zero the specification leaves the result of \<open>normalize\<close> open
  (a failure, the vector unchanged, or \<^verbatim>\<open>nan\<close>); the model stops there with
  \<open>Unmodelled\<close>. A cosine whose denominator is zero is \<^verbatim>\<open>0/0\<close>, hence \<open>None\<close>.
  The function \<^verbatim>\<open>normalize\<close> is \<open>normalize_vector\<close> here, the name being taken in HOL.
\<close>

definition normalize_vector :: "vector \<Rightarrow> error + vector" where
  "normalize_vector v =
     (if linalg_norm v = 0 then Inl (Unmodelled ''normalize: zero norm'')
      else Inr (sdiv v (linalg_norm v)))"

definition cosine_similarity :: "vector \<Rightarrow> vector \<Rightarrow> real option" where
  "cosine_similarity v u =
     (if linalg_norm v * linalg_norm u = 0 then None
      else Some (dot v u / (linalg_norm v * linalg_norm u)))"

definition project_vector :: "vector \<Rightarrow> vector \<Rightarrow> vector" where
  "project_vector v d = smul (dot v d) d"

definition reject_vector :: "vector \<Rightarrow> vector \<Rightarrow> vector" where
  "reject_vector v d = vsub v (project_vector v d)"

definition project_reject_vector :: "vector \<Rightarrow> vector \<Rightarrow> vector \<times> vector" where
  "project_reject_vector v d =
     (let projected_vector = project_vector v d in (projected_vector, vsub v projected_vector))"

section \<open>The key-vector store (\<^verbatim>\<open>gensim.models.KeyedVectors\<close>)\<close>

datatype row = Row vector | NaNRow

text \<open>
  A store is the vocabulary in enumeration order, each word with its row of the matrix
  \<^verbatim>\<open>model.vectors\<close>. Keys are distinct, as those of the \<^verbatim>\<open>vocab\<close> dictionary are.
\<close>

type_synonym store = "(word \<times> row) list"

definition vocab :: "store \<Rightarrow> word list" where
  "vocab m = map fst m"

definition model_getitem :: "store \<Rightarrow> word \<Rightarrow> error + row" where
  \<comment> \<open>\<^verbatim>\<open>model[key]\<close> for a single word.\<close>
  "model_getitem m key = (case map_of m key of None \<Rightarrow> Inl (KeyError key) | Some r \<Rightarrow> Inr r)"

definition get_vector :: "store \<Rightarrow> word \<Rightarrow> error + vector" where
  \<comment> \<open>\<^verbatim>\<open>model[key]\<close> where the array goes on into vector arithmetic.\<close>
  "get_vector m key =
     (case model_getitem m key of
        Inl e \<Rightarrow> Inl e
      | Inr NaNRow \<Rightarrow> Inl (Unmodelled ''nan array'')
      | Inr (Row v) \<Rightarrow> Inr v)"

definition update_word_vector :: "store \<Rightarrow> word \<Rightarrow> row \<Rightarrow> store" where
  \<comment> \<open>Modelled from the spec: \<^verbatim>\<open>utils.update_word_vector\<close> is missing; section 6 of the
      specification describes it as the in-place replacement of one word's vector.\<close>
  "update_word_vector m key r = map (\<lambda>(k, old). if k = key then (k, r) else (k, old)) m"

definition init_sims_row :: "row \<Rightarrow> row" where
  "init_sims_row r =
     (case r of
        NaNRow \<Rightarrow> NaNRow
      | Row v \<Rightarrow> if linalg_norm v = 0 then NaNRow else Row (sdiv v (linalg_norm v)))"

definition init_sims_replace :: "store \<Rightarrow> store" where
  \<comment> \<open>\<^verbatim>\<open>model.init_sims(replace=True)\<close>: every row is divided in place by its L2 norm;
      a zero row becomes \<^verbatim>\<open>0/0\<close> in every entry.\<close>
  "init_sims_replace m = map (\<lambda>(k, r). (k, init_sims_row r)) m"

definition cosine_similarities :: "vector \<Rightarrow> vector list \<Rightarrow> real option list" where
  \<comment> \<open>The static method of \<^verbatim>\<open>KeyedVectors\<close>:
      \<^verbatim>\<open>dot(vectors_all, vector_1) / (norm(vector_1) * norm(vectors_all, axis=1))\<close>.\<close>
  "cosine_similarities vector_1 vectors_all =
     map (\<lambda>v. if linalg_norm vector_1 * linalg_norm v = 0 then None
              else Some (dot v vector_1 / (linalg_norm vector_1 * linalg_norm v))) vectors_all"

section \<open>Objects and the heap\<close>

text \<open>
  A \<^verbatim>\<open>BiasWordsEmbedding\<close> object holds a reference to its store, so that two objects
  may share one store. The heap keeps the stores and the objects apart; an address is an
  index, and allocation appends. The flag \<^verbatim>\<open>_verbose\<close> selects console output and
  progress bars only, which are not modelled; the type test of \<^verbatim>\<open>__init__\<close> is
  the type of the field \<open>model\<close>.
\<close>

record bias_words_embedding =
  model :: nat
  only_lower :: bool
  verbose :: bool
  direction :: "vector option"
  positive_end :: "word option"
  negative_end :: "word option"

record heap =
  models :: "store list"
  objects :: "bias_words_embedding list"

definition valid_object :: "heap \<Rightarrow> nat \<Rightarrow> bool" where
  \<comment> \<open>The address is that of a live object whose store is live.\<close>
  "valid_object h a \<longleftrightarrow> a < length (objects h) \<and> model (objects h ! a) < length (models h)"

definition self_model :: "heap \<Rightarrow> nat \<Rightarrow> store" where
  "self_model h a = models h ! model (objects h ! a)"

definition set_self_model :: "heap \<Rightarrow> nat \<Rightarrow> store \<Rightarrow> heap" where
  "set_self_model h a m = h\<lparr>models := (models h)[model (objects h ! a) := m]\<rparr>"

definition init :: "nat \<Rightarrow> bias_words_embedding" where
  \<comment> \<open>\<^verbatim>\<open>__init__(model)\<close> with the default \<^verbatim>\<open>only_lower\<close> and \<^verbatim>\<open>verbose\<close>.\<close>
  "init m = \<lparr>model = m, only_lower = False, verbose = False,
             direction = None, positive_end = None, negative_end = None\<rparr>"

definition copy_object :: "heap \<Rightarrow> nat \<Rightarrow> nat \<times> heap" where
  \<comment> \<open>\<^verbatim>\<open>__copy__\<close>: a new object on the same store.\<close>
  "copy_object h a =
     (let self = objects h ! a;
          bias_words_embedding = (init (model self))\<lparr>direction := direction self,
             positive_end := positive_end self, negative_end := negative_end self\<rparr>
      in (length (objects h), h\<lparr>objects := objects h @ [bias_words_embedding]\<rparr>))"

definition deepcopy_object :: "heap \<Rightarrow> nat \<Rightarrow> nat \<times> heap" where
  \<comment> \<open>\<^verbatim>\<open>__deepcopy__\<close>: the copy, then a store of its own.\<close>
  "deepcopy_object h a =
     (let (b, h1) = copy_object h a;
          m = length (models h1);
          h2 = h1\<lparr>models := models h1 @ [models h1 ! model (objects h1 ! b)]\<rparr>
      in (b, h2\<lparr>objects := (objects h2)[b := (objects h2 ! b)\<lparr>model := m\<rparr>]\<rparr>))"

definition is_direction_identified :: "bias_words_embedding \<Rightarrow> error + vector" where
  \<comment> \<open>\<^verbatim>\<open>_is_direction_identified\<close>; the model hands the direction on.\<close>
  "is_direction_identified self =
     (case direction self of None \<Rightarrow> Inl RuntimeError_direction_not_identified | Some d \<Rightarrow> Inr d)"

section \<open>Identifying the direction\<close>

definition DIRECTION_METHODS :: "string list" where
  "DIRECTION_METHODS = [''single'', ''sum'', ''pca'']"

definition DEBIAS_METHODS :: "string list" where
  "DEBIAS_METHODS = [''neutralize'', ''hard'', ''soft'']"

definition FIRST_PC_THRESHOLD :: real where
  "FIRST_PC_THRESHOLD = 1 / 2"

definition MAX_NON_SPECIFIC_EXAMPLES :: int where
  "MAX_NON_SPECIFIC_EXAMPLES = 1000"

text \<open>
  \<^verbatim>\<open>sklearn.decomposition.PCA\<close> is a parameter of the model: given the number of
  components and the matrix it either raises or returns the explained variance ratios
  and the components.
\<close>

record pca_result =
  explained_variance_ratio :: "real list"
  components :: "vector list"

type_synonym pca_fit = "nat \<Rightarrow> vector list \<Rightarrow> error + pca_result"

text \<open>
  The argument \<^verbatim>\<open>definitional\<close> is a sequence of words for the method
  \<^verbatim>\<open>single\<close> and a sequence of word pairs for \<^verbatim>\<open>sum\<close> and \<^verbatim>\<open>pca\<close>. With the
  other shape the store is indexed by a tuple or by characters, which the embedding
  does not follow.
\<close>

datatype definitional = Words "word list" | Pairs "(word \<times> word) list"

fun pca_matrix :: "store \<Rightarrow> (word \<times> word) list \<Rightarrow> error + vector list" where
  "pca_matrix m [] = Inr []"
| "pca_matrix m ((word1, word2) # rest) =
     ebind (get_vector m word1) (\<lambda>x1.
     ebind (normalize_vector x1) (\<lambda>vector1.
     ebind (get_vector m word2) (\<lambda>x2.
     ebind (normalize_vector x2) (\<lambda>vector2.
     ebind (pca_matrix m rest) (\<lambda>matrix.
       let center = sdiv (vadd vector1 vector2) 2
       in Inr (vsub vector1 center # vsub vector2 center # matrix))))))"

definition identify_subspace_by_pca ::
  "pca_fit \<Rightarrow> store \<Rightarrow> (word \<times> word) list \<Rightarrow> nat \<Rightarrow> error + pca_result" where
  "identify_subspace_by_pca fit m definitional_pairs n_components =
     ebind (pca_matrix m definitional_pairs) (\<lambda>matrix. fit n_components matrix)"

fun get_vectors :: "store \<Rightarrow> word list \<Rightarrow> error + vector list" where
  \<comment> \<open>\<^verbatim>\<open>[self[word] for word in words]\<close>.\<close>
  "get_vectors m [] = Inr []"
| "get_vectors m (w # ws) =
     ebind (get_vector m w) (\<lambda>v. ebind (get_vectors m ws) (\<lambda>vs. Inr (v # vs)))"

definition index :: "'a list \<Rightarrow> nat \<Rightarrow> error + 'a" where
  \<comment> \<open>\<^verbatim>\<open>xs[i]\<close> for a literal index \<^verbatim>\<open>i \<ge> 0\<close>.\<close>
  "index xs i = (if i < length xs then Inr (xs ! i) else Inl IndexError)"

definition direction_single :: "store \<Rightarrow> definitional \<Rightarrow> error + vector" where
  "direction_single m defn =
     (case defn of
        Pairs ps \<Rightarrow> Inl (Unmodelled ''single: pairs'')
      | Words ws \<Rightarrow>
          ebind (index ws 0) (\<lambda>w0.
          ebind (get_vector m w0) (\<lambda>x0.
          ebind (normalize_vector x0) (\<lambda>n0.
          ebind (index ws 1) (\<lambda>w1.
          ebind (get_vector m w1) (\<lambda>x1.
          ebind (normalize_vector x1) (\<lambda>n1.
            normalize_vector (vsub n0 n1))))))))"

definition direction_sum :: "store \<Rightarrow> definitional \<Rightarrow> error + vector" where
  "direction_sum m defn =
     (case defn of
        Words ws \<Rightarrow> Inl (Unmodelled ''sum: words'')
      | Pairs ps \<Rightarrow>
          if ps = [] then Inl IndexError
          else
            ebind (get_vectors m (map fst ps)) (\<lambda>vs1.
            ebind (get_vectors m (map snd ps)) (\<lambda>vs2.
            ebind (normalize_vector (vsum vs1)) (\<lambda>n1.
            ebind (normalize_vector (vsum vs2)) (\<lambda>n2.
              normalize_vector (vsub n1 n2))))))"

definition direction_pca :: "pca_fit \<Rightarrow> store \<Rightarrow> definitional \<Rightarrow> error + vector" where
  "direction_pca fit m defn =
     (case defn of
        Words ws \<Rightarrow> Inl (Unmodelled ''pca: words'')
      | Pairs ps \<Rightarrow>
          ebind (identify_subspace_by_pca fit m ps 10) (\<lambda>pca.
          ebind (index (explained_variance_ratio pca) 0) (\<lambda>r0.
            if r0 < FIRST_PC_THRESHOLD then Inl (RuntimeError_first_pc r0)
            else index (components pca) 0)))"

definition compute_direction ::
  "pca_fit \<Rightarrow> store \<Rightarrow> definitional \<Rightarrow> string \<Rightarrow> error + vector" where
  \<comment> \<open>The three branches of \<^verbatim>\<open>_identify_direction\<close>, for a method already checked.\<close>
  "compute_direction fit m defn method =
     (if method = ''single'' then direction_single m defn
      else if method = ''sum'' then direction_sum m defn
      else direction_pca fit m defn)"

definition nan_less :: "real option \<Rightarrow> real \<Rightarrow> bool" where
  \<comment> \<open>\<^verbatim>\<open>x < c\<close> on a float: false when \<^verbatim>\<open>x\<close> is \<^verbatim>\<open>nan\<close>.\<close>
  "nan_less x c = (case x of None \<Rightarrow> False | Some r \<Rightarrow> r < c)"

definition calibrate_sign :: "store \<Rightarrow> word \<Rightarrow> word \<Rightarrow> vector \<Rightarrow> error + vector" where
  \<comment> \<open>The sign test that ends \<^verbatim>\<open>_identify_direction\<close>.\<close>
  "calibrate_sign m pos neg d =
     ebind (get_vector m pos) (\<lambda>vp.
     ebind (get_vector m neg) (\<lambda>vn.
       let ends_diff_projection = cosine_similarity (vsub vp vn) d
       in Inr (if nan_less ends_diff_projection 0 then vneg d else d)))"

definition set_direction :: "heap \<Rightarrow> nat \<Rightarrow> vector \<Rightarrow> word \<Rightarrow> word \<Rightarrow> heap" where
  "set_direction h a d pos neg =
     h\<lparr>objects := (objects h)[a := (objects h ! a)\<lparr>direction := Some d,
          positive_end := Some pos, negative_end := Some neg\<rparr>]\<rparr>"

definition identify_direction ::
  "pca_fit \<Rightarrow> heap \<Rightarrow> nat \<Rightarrow> word \<Rightarrow> word \<Rightarrow> definitional \<Rightarrow> string \<Rightarrow> (error + unit) \<times> heap" where
  "identify_direction fit h a pos neg defn method =
     (if method \<notin> set DIRECTION_METHODS then (Inl (ValueError_method method), h)
      else if pos = neg then (Inl (ValueError_same_ends pos), h)
      else
        (case ebind (compute_direction fit (self_model h a) defn method)
                    (calibrate_sign (self_model h a) pos neg) of
           Inl e \<Rightarrow> (Inl e, h)
         | Inr d \<Rightarrow> (Inr (), set_direction h a d pos neg)))"

section \<open>Measuring the bias\<close>

text \<open>
  The measuring functions assign to no attribute and call no method of the store that
  writes, so they take the heap and return a value or an error only.
\<close>

definition project_on_direction :: "heap \<Rightarrow> nat \<Rightarrow> word \<Rightarrow> error + real option" where
  "project_on_direction h a w =
     ebind (is_direction_identified (objects h ! a)) (\<lambda>d.
     ebind (model_getitem (self_model h a) w) (\<lambda>r.
       case r of NaNRow \<Rightarrow> Inr None | Row v \<Rightarrow> index (cosine_similarities d [v]) 0))"

fun projection_column :: "heap \<Rightarrow> nat \<Rightarrow> word list \<Rightarrow> error + (word \<times> real option) list" where
  \<comment> \<open>\<^verbatim>\<open>df['word'].apply(self.project_on_direction)\<close>.\<close>
  "projection_column h a [] = Inr []"
| "projection_column h a (w # ws) =
     ebind (project_on_direction h a w) (\<lambda>p.
     ebind (projection_column h a ws) (\<lambda>df. Inr ((w, p) # df)))"

definition sort_values_descending :: "(word \<times> real option) list \<Rightarrow> (word \<times> real option) list" where
  \<comment> \<open>\<^verbatim>\<open>df.sort_values('projection', ascending=False)\<close>: \<^verbatim>\<open>nan\<close> last. The order
      that pandas gives to equal projections is not fixed; the model keeps theirs.\<close>
  "sort_values_descending df =
     sort_key (\<lambda>(w, p). - the p) (filter (\<lambda>(w, p). p \<noteq> None) df) @ filter (\<lambda>(w, p). p = None) df"

definition calc_projection_scores ::
  "heap \<Rightarrow> nat \<Rightarrow> word list \<Rightarrow> error + (word \<times> real option) list" where
  "calc_projection_scores h a words =
     ebind (is_direction_identified (objects h ! a)) (\<lambda>d.
     ebind (projection_column h a words) (\<lambda>df. Inr (sort_values_descending df)))"

fun direct_bias_terms :: "real option list \<Rightarrow> real \<Rightarrow> error + real list" where
  \<comment> \<open>\<^verbatim>\<open>np.abs(projections) ** c\<close>, followed as long as every term is a real number.\<close>
  "direct_bias_terms [] c = Inr []"
| "direct_bias_terms (None # ps) c = Inl (Unmodelled ''nan projection'')"
| "direct_bias_terms (Some p # ps) c =
     (if p = 0 \<and> c < 0 then Inl (Unmodelled ''infinite term'')
      else ebind (direct_bias_terms ps c) (\<lambda>ts.
             Inr ((if p = 0 then (if c = 0 then 1 else 0) else \<bar>p\<bar> powr c) # ts)))"

definition calc_direct_bias :: "heap \<Rightarrow> nat \<Rightarrow> word list \<Rightarrow> real option \<Rightarrow> error + real" where
  "calc_direct_bias h a neutral_words c_arg =
     (let c = (case c_arg of None \<Rightarrow> 1 | Some c \<Rightarrow> c) in
      ebind (calc_projection_scores h a neutral_words) (\<lambda>df.
      ebind (direct_bias_terms (map snd df) c) (\<lambda>terms.
        if neutral_words = [] then Inl (Unmodelled ''no neutral words'')
        else Inr (sum_list terms / real (length neutral_words)))))"

definition calc_indirect_bias :: "heap \<Rightarrow> nat \<Rightarrow> word \<Rightarrow> word \<Rightarrow> error + real option" where
  \<comment> \<open>The result is \<open>None\<close> where the quotient is \<^verbatim>\<open>nan\<close> or infinite.\<close>
  "calc_indirect_bias h a word1 word2 =
     ebind (is_direction_identified (objects h ! a)) (\<lambda>d.
     ebind (get_vector (self_model h a) word1) (\<lambda>x1.
     ebind (normalize_vector x1) (\<lambda>vector1.
     ebind (get_vector (self_model h a) word2) (\<lambda>x2.
     ebind (normalize_vector x2) (\<lambda>vector2.
       let perpendicular_vector1 = reject_vector vector1 d;
           perpendicular_vector2 = reject_vector vector2 d;
           inner_product = dot vector1 vector2
       in Inr (case cosine_similarity perpendicular_vector1 perpendicular_vector2 of
                 None \<Rightarrow> None
               | Some perpendicular_similarity \<Rightarrow>
                   if inner_product = 0 then None
                   else Some ((inner_product - perpendicular_similarity) / inner_product)))))))"

section \<open>Neutral words\<close>

text \<open>
  Words are ASCII strings. \<^verbatim>\<open>str.lower\<close>, \<^verbatim>\<open>str.upper\<close> and \<^verbatim>\<open>str.title\<close>
  act on the letters \<^verbatim>\<open>A-Z\<close> and \<^verbatim>\<open>a-z\<close>; \<^verbatim>\<open>title\<close> puts a letter in upper
  case when no letter precedes it and in lower case otherwise.
\<close>

definition is_upper :: "char \<Rightarrow> bool" where
  "is_upper c \<longleftrightarrow> (65::nat) \<le> of_char c \<and> of_char c \<le> (90::nat)"

definition is_lower :: "char \<Rightarrow> bool" where
  "is_lower c \<longleftrightarrow> (97::nat) \<le> of_char c \<and> of_char c \<le> (122::nat)"

definition char_lower :: "char \<Rightarrow> char" where
  "char_lower c = (if is_upper c then char_of (of_char c + (32::nat)) else c)"

definition char_upper :: "char \<Rightarrow> char" where
  "char_upper c = (if is_lower c then char_of (of_char c - (32::nat)) else c)"

definition lower :: "string \<Rightarrow> string" where
  "lower s = map char_lower s"

definition upper :: "string \<Rightarrow> string" where
  "upper s = map char_upper s"

fun title_from :: "bool \<Rightarrow> string \<Rightarrow> string" where
  "title_from previous_is_cased [] = []"
| "title_from previous_is_cased (c # cs) =
     (if is_upper c \<or> is_lower c
      then (if previous_is_cased then char_lower c else char_upper c) # title_from True cs
      else c # title_from False cs)"

definition title :: "string \<Rightarrow> string" where
  "title s = title_from False s"

fun extend_specific_words :: "word list \<Rightarrow> word set \<Rightarrow> word set" where
  \<comment> \<open>The loop that fills \<^verbatim>\<open>extended_specific_words\<close>.\<close>
  "extend_specific_words [] extended = extended"
| "extend_specific_words (w # ws) extended =
     extend_specific_words ws
       (insert (title w) (insert (upper w) (insert (lower w) (insert w extended))))"

definition extract_neutral_words :: "store \<Rightarrow> word list \<Rightarrow> word list" where
  "extract_neutral_words m specific_words =
     (let extended_specific_words = extend_specific_words specific_words {}
      in filter (\<lambda>w. w \<notin> extended_specific_words) (vocab m))"

section \<open>Debiasing\<close>

definition reject_row :: "row \<Rightarrow> vector \<Rightarrow> row" where
  "reject_row r d = (case r of NaNRow \<Rightarrow> NaNRow | Row v \<Rightarrow> Row (reject_vector v d))"

fun neutralize_loop :: "vector \<Rightarrow> word list \<Rightarrow> store \<Rightarrow> (error + unit) \<times> store" where
  "neutralize_loop d [] m = (Inr (), m)"
| "neutralize_loop d (w # ws) m =
     (case model_getitem m w of
        Inl e \<Rightarrow> (Inl e, m)
      | Inr r \<Rightarrow> neutralize_loop d ws (update_word_vector m w (reject_row r d)))"

definition finish :: "heap \<Rightarrow> nat \<Rightarrow> (error + unit) \<times> store \<Rightarrow> (error + unit) \<times> heap" where
  \<comment> \<open>What follows a loop over the store: \<^verbatim>\<open>init_sims(replace=True)\<close> when the loop
      ended normally; an exception leaves the store as the loop left it.\<close>
  "finish h a res =
     (case res of
        (Inl e, m) \<Rightarrow> (Inl e, set_self_model h a m)
      | (Inr u, m) \<Rightarrow> (Inr (), set_self_model h a (init_sims_replace m)))"

definition neutralize :: "heap \<Rightarrow> nat \<Rightarrow> word list option \<Rightarrow> (error + unit) \<times> heap" where
  \<comment> \<open>Iterating over \<^verbatim>\<open>None\<close> is a \<^verbatim>\<open>TypeError\<close>.\<close>
  "neutralize h a neutral_words =
     (case is_direction_identified (objects h ! a) of
        Inl e \<Rightarrow> (Inl e, h)
      | Inr d \<Rightarrow>
          (case neutral_words of
             None \<Rightarrow> (Inl TypeError, h)
           | Some ws \<Rightarrow> finish h a (neutralize_loop d ws (self_model h a))))"

definition equalize_scaling :: "vector \<Rightarrow> real option" where
  \<comment> \<open>\<^verbatim>\<open>np.sqrt(1 - np.linalg.norm(rejected_center)**2)\<close>.\<close>
  "equalize_scaling rejected_center = np_sqrt (1 - (linalg_norm rejected_center)\<^sup>2)"

definition equalized_vector :: "vector \<Rightarrow> vector \<Rightarrow> row" where
  \<comment> \<open>\<^verbatim>\<open>rejected_center + scaling * projected_part\<close>; with a \<^verbatim>\<open>nan\<close> scaling every
      entry of the sum is \<^verbatim>\<open>nan\<close>.\<close>
  "equalized_vector rejected_center projected_part =
     (case equalize_scaling rejected_center of
        None \<Rightarrow> NaNRow
      | Some scaling \<Rightarrow> Row (vadd rejected_center (smul scaling projected_part)))"

fun equalize_members ::
  "vector \<Rightarrow> vector \<Rightarrow> vector \<Rightarrow> (word \<times> vector) list \<Rightarrow> store \<Rightarrow> (error + unit) \<times> store" where
  \<comment> \<open>The inner loop of \<^verbatim>\<open>_equalize\<close> over \<^verbatim>\<open>zip(equality_set_words, equality_set_vectors)\<close>.\<close>
  "equalize_members d projected_center rejected_center [] m = (Inr (), m)"
| "equalize_members d projected_center rejected_center ((w, v) # rest) m =
     (case normalize_vector (vsub (project_vector v d) projected_center) of
        Inl e \<Rightarrow> (Inl e, m)
      | Inr projected_part \<Rightarrow>
          equalize_members d projected_center rejected_center rest
            (update_word_vector m w (equalized_vector rejected_center projected_part)))"

fun normalized_vectors :: "store \<Rightarrow> word list \<Rightarrow> error + vector list" where
  \<comment> \<open>\<^verbatim>\<open>[normalize(self[word]) for word in equality_set_words]\<close>.\<close>
  "normalized_vectors m [] = Inr []"
| "normalized_vectors m (w # ws) =
     ebind (get_vector m w) (\<lambda>x.
     ebind (normalize_vector x) (\<lambda>v.
     ebind (normalized_vectors m ws) (\<lambda>vs. Inr (v # vs))))"

definition np_mean :: "vector list \<Rightarrow> vector" where
  \<comment> \<open>\<^verbatim>\<open>np.mean(vectors, axis=0)\<close> of a non-empty list.\<close>
  "np_mean vs = sdiv (vsum vs) (real (length vs))"

definition equalize_set :: "vector option \<Rightarrow> word list \<Rightarrow> store \<Rightarrow> (error + unit) \<times> store" where
  \<comment> \<open>One pass of the outer loop of \<^verbatim>\<open>_equalize\<close>. The mean of no vectors is
      \<^verbatim>\<open>nan\<close>, and what the missing helper does with a direction \<^verbatim>\<open>None\<close> is not
      specified: the model stops at both.\<close>
  "equalize_set dir equality_set_words m =
     (case normalized_vectors m equality_set_words of
        Inl e \<Rightarrow> (Inl e, m)
      | Inr equality_set_vectors \<Rightarrow>
          if equality_set_vectors = [] then (Inl (Unmodelled ''mean of no vectors''), m)
          else
            (case dir of
               None \<Rightarrow> (Inl (Unmodelled ''direction None''), m)
             | Some d \<Rightarrow>
                 (let center = np_mean equality_set_vectors;
                      (projected_center, rejected_center) = project_reject_vector center d
                  in equalize_members d projected_center rejected_center
                       (zip equality_set_words equality_set_vectors) m)))"

fun equalize_loop :: "vector option \<Rightarrow> word list list \<Rightarrow> store \<Rightarrow> (error + unit) \<times> store" where
  "equalize_loop dir [] m = (Inr (), m)"
| "equalize_loop dir (equality_set_words # rest) m =
     (case equalize_set dir equality_set_words m of
        (Inl e, m') \<Rightarrow> (Inl e, m')
      | (Inr u, m') \<Rightarrow> equalize_loop dir rest m')"

definition equalize :: "heap \<Rightarrow> nat \<Rightarrow> word list list option \<Rightarrow> (error + unit) \<times> heap" where
  "equalize h a equality_sets =
     (case equality_sets of
        None \<Rightarrow> (Inl TypeError, h)
      | Some sets \<Rightarrow> finish h a (equalize_loop (direction (objects h ! a)) sets (self_model h a)))"

definition debias ::
  "heap \<Rightarrow> nat \<Rightarrow> string \<Rightarrow> word list option \<Rightarrow> word list list option \<Rightarrow> bool
     \<Rightarrow> (error + nat option) \<times> heap" where
  \<comment> \<open>The value returned is \<open>None\<close> for Python's \<^verbatim>\<open>None\<close> and \<open>Some b\<close> for the
      object at address \<open>b\<close>.\<close>
  "debias h a method neutral_words equality_sets inplace =
     (let (bias_words_embedding, h1) = (if inplace then (a, h) else deepcopy_object h a) in
      if method \<notin> set DEBIAS_METHODS then (Inl (ValueError_method method), h1)
      else
        (case (if method \<in> set [''hard'', ''neutralize'']
               then neutralize h1 bias_words_embedding neutral_words else (Inr (), h1)) of
           (Inl e, h2) \<Rightarrow> (Inl e, h2)
         | (Inr u, h2) \<Rightarrow>
             (case (if method = ''hard''
                    then equalize h2 bias_words_embedding equality_sets else (Inr (), h2)) of
                (Inl e, h3) \<Rightarrow> (Inl e, h3)
              | (Inr u', h3) \<Rightarrow> (Inr (if inplace then None else Some bias_words_embedding), h3))))"

section \<open>Learning the specific words\<close>

fun training_data :: "store \<Rightarrow> word list \<Rightarrow> word list \<Rightarrow> int \<Rightarrow> int \<Rightarrow> error + (row \<times> bool) list" where
  \<comment> \<open>The loop of \<^verbatim>\<open>learn_full_specific_words\<close> that fills \<^verbatim>\<open>data\<close>, from the
      words still to visit and the value of \<^verbatim>\<open>non_specific_example_count\<close>.\<close>
  "training_data m [] seed_specific_words max_non_specific_examples count = Inr []"
| "training_data m (w # ws) seed_specific_words max_non_specific_examples count =
     (let is_specific = w \<in> set seed_specific_words in
      if \<not> is_specific then
        (if count + 1 \<le> max_non_specific_examples
         then ebind (model_getitem m w) (\<lambda>r.
              ebind (training_data m ws seed_specific_words max_non_specific_examples (count + 1))
                (\<lambda>data. Inr ((r, is_specific) # data)))
         else training_data m ws seed_specific_words max_non_specific_examples (count + 1))
      else ebind (model_getitem m w) (\<lambda>r.
           ebind (training_data m ws seed_specific_words max_non_specific_examples count)
             (\<lambda>data. Inr ((r, is_specific) # data))))"

definition learn_full_specific_words_data ::
  "store \<Rightarrow> word list \<Rightarrow> int option \<Rightarrow> error + (row \<times> bool) list" where
  \<comment> \<open>\<^verbatim>\<open>learn_full_specific_words\<close> up to the call of \<^verbatim>\<open>np.random.shuffle\<close>; the
      shuffle, the classifier and its predictions belong to numpy and sklearn.\<close>
  "learn_full_specific_words_data m seed_specific_words max_arg =
     (let max_non_specific_examples =
            (case max_arg of None \<Rightarrow> MAX_NON_SPECIFIC_EXAMPLES | Some n \<Rightarrow> n)
      in training_data m (vocab m) seed_specific_words max_non_specific_examples 0)"

section \<open>A small store\<close>

definition example_store :: store where
  "example_store = [(''he'', Row [1, 0]), (''she'', Row [0, 1]), (''doctor'', Row [1, 1])]"

definition example_heap :: "vector option \<Rightarrow> heap" where
  \<comment> \<open>One object on one store, with the direction given.\<close>
  "example_heap dir = \<lparr>models = [example_store], objects = [(init 0)\<lparr>direction := dir\<rparr>]\<rparr>"

definition example_debiased :: heap where
  \<comment> \<open>The heap after \<^verbatim>\<open>debias('neutralize', ['doctor'], inplace=False)\<close> along \<open>[1, 0]\<close>.\<close>
  "example_debiased =
     \<lparr>models = [example_store,
                [(''he'', Row [1, 0]), (''she'', Row [0, 1]), (''doctor'', Row [0, 1])]],
      objects = [(init 0)\<lparr>direction := Some [1, 0]\<rparr>, (init 1)\<lparr>direction := Some [1, 0]\<rparr>]\<rparr>"

definition no_pca :: pca_fit where
  \<comment> \<open>A PCA that is never reached: the methods \<^verbatim>\<open>single\<close> and \<^verbatim>\<open>sum\<close> do not call it.\<close>
  "no_pca n matrix = Inl (Unmodelled ''pca'')"

definition tied_store :: store where
  \<comment> \<open>A store in which two words have the same vector.\<close>
  "tied_store =
     [(''he'', Row [1, 0]), (''she'', Row [1, 0]), (''man'', Row [1, 0]), (''woman'', Row [-1, 0])]"

definition tied_heap :: heap where
  "tied_heap = \<lparr>models = [tied_store], objects = [init 0]\<rparr>"

section \<open>The scaling factor of equalize\<close>

lemma linalg_norm_nonneg: "0 \<le> linalg_norm v"
  unfolding linalg_norm_def dot_def
  by (induction v) (auto intro!: real_sqrt_ge_zero add_nonneg_nonneg)

text \<open>
  C4, as stated: the scaling factor is \<open>sqrt (max 0 (1 - \<parallel>rejected_center\<parallel>\<^sup>2))\<close>, a real
  number also when \<open>\<parallel>rejected_center\<parallel>\<^sup>2\<close> exceeds 1. The source takes the square root of
  \<open>1 - \<parallel>rejected_center\<parallel>\<^sup>2\<close> itself: for the rejected centroid \<open>[0, 2]\<close> the radicand
  is \<open>-3\<close> and the factor is \<^verbatim>\<open>nan\<close>, where the clamped formula gives 0.
\<close>

theorem equalize_scaling_clamp_counterexample:
  "equalize_scaling [0, 2] = None \<and> np_sqrt (max 0 (1 - (linalg_norm [0, 2])\<^sup>2)) = Some 0"
  by (simp add: equalize_scaling_def np_sqrt_def linalg_norm_def dot_def)

text \<open>
  C4, amended: the scaling factor of equalize is \<open>sqrt (1 - \<parallel>rejected_center\<parallel>\<^sup>2)\<close> with no
  clamp. It is a real number, equal to the clamped formula, exactly when
  \<open>\<parallel>rejected_center\<parallel> \<le> 1\<close>, and \<^verbatim>\<open>nan\<close> when \<open>\<parallel>rejected_center\<parallel>\<close> exceeds 1.
\<close>

theorem equalize_scaling_unclamped:
  "equalize_scaling rc =
     (if linalg_norm rc \<le> 1 then Some (sqrt (max 0 (1 - (linalg_norm rc)\<^sup>2))) else None)"
proof (cases "linalg_norm rc \<le> 1")
  case True
  with linalg_norm_nonneg [of rc] have "(linalg_norm rc)\<^sup>2 \<le> 1"
    by (simp add: power_le_one_iff)
  with True show ?thesis by (simp add: equalize_scaling_def np_sqrt_def max_def)
next
  case False
  with linalg_norm_nonneg [of rc] have "1 < (linalg_norm rc)\<^sup>2"
    by (simp add: power2_eq_square less_1_mult)
  with False show ?thesis by (simp add: equalize_scaling_def np_sqrt_def)
qed

section \<open>Rejected calls of the identification\<close>

text \<open>
  C8: with \<open>positive_end = negative_end\<close> the identification fails for every method and
  every definitional input: with the \<^verbatim>\<open>ValueError\<close> of equal ends when the method is
  one of \<open>DIRECTION_METHODS\<close>, with the \<^verbatim>\<open>ValueError\<close> of the method otherwise. The
  result depends neither on the store nor on the definitional input nor on the PCA, and
  the heap returned is the heap given: direction and ends of the object are unchanged.
\<close>

theorem identify_direction_equal_ends:
  "identify_direction fit h a w w defn method =
     (Inl (if method \<in> set DIRECTION_METHODS then ValueError_same_ends w
           else ValueError_method method), h)"
  by (simp add: identify_direction_def)

section \<open>The heap after a call of debias\<close>

lemma deepcopy_object_eq:
  "deepcopy_object h a =
     (length (objects h),
      \<lparr>models = models h @ [self_model h a],
       objects = objects h @ [\<lparr>model = length (models h), only_lower = False, verbose = False,
          direction = direction (objects h ! a), positive_end = positive_end (objects h ! a),
          negative_end = negative_end (objects h ! a)\<rparr>]\<rparr>)"
  by (simp add: deepcopy_object_def copy_object_def init_def self_model_def Let_def nth_append)

lemma finish_frame:
  assumes "finish h a res = (r, h')"
  shows "objects h' = objects h \<and> (\<exists>m. models h' = (models h)[model (objects h ! a) := m])"
  using assms
  by (auto simp: finish_def set_self_model_def split: prod.splits sum.splits)

lemma neutralize_frame:
  assumes "neutralize h a nw = (r, h')"
  shows "objects h' = objects h \<and> (\<exists>m. models h' = (models h)[model (objects h ! a) := m])"
proof (cases "\<exists>d ws. direction (objects h ! a) = Some d \<and> nw = Some ws")
  case True
  then obtain d ws where "direction (objects h ! a) = Some d" "nw = Some ws" by blast
  with assms have "finish h a (neutralize_loop d ws (self_model h a)) = (r, h')"
    by (simp add: neutralize_def is_direction_identified_def)
  then show ?thesis by (rule finish_frame)
next
  case False
  then have "h' = h" using assms
    by (auto simp: neutralize_def is_direction_identified_def split: option.splits)
  moreover have "models h = (models h)[model (objects h ! a) := models h ! model (objects h ! a)]"
    by simp
  ultimately show ?thesis by metis
qed

lemma equalize_frame:
  assumes "equalize h a es = (r, h')"
  shows "objects h' = objects h \<and> (\<exists>m. models h' = (models h)[model (objects h ! a) := m])"
proof (cases es)
  case None
  then have "h' = h" using assms by (simp add: equalize_def)
  moreover have "models h = (models h)[model (objects h ! a) := models h ! model (objects h ! a)]"
    by simp
  ultimately show ?thesis by metis
next
  case (Some sets)
  with assms have "finish h a (equalize_loop (direction (objects h ! a)) sets (self_model h a)) = (r, h')"
    by (simp add: equalize_def)
  then show ?thesis by (rule finish_frame)
qed

lemma steps_frame:
  assumes "(if c1 then neutralize h1 b nw else (Inr (), h1)) = (r2, h2)"
    and "(if c2 then equalize h2 b es else (Inr (), h2)) = (r3, h3)"
  shows "objects h3 = objects h1 \<and> (\<exists>m. models h3 = (models h1)[model (objects h1 ! b) := m])"
proof -
  have 1: "objects h2 = objects h1 \<and> (\<exists>m. models h2 = (models h1)[model (objects h1 ! b) := m])"
  proof (cases c1)
    case True then show ?thesis using assms(1) neutralize_frame by simp
  next
    case False
    then have "h2 = h1" using assms(1) by simp
    moreover have "models h1 = (models h1)[model (objects h1 ! b) := models h1 ! model (objects h1 ! b)]"
      by simp
    ultimately show ?thesis by metis
  qed
  have 2: "objects h3 = objects h2 \<and> (\<exists>m. models h3 = (models h2)[model (objects h2 ! b) := m])"
  proof (cases c2)
    case True then show ?thesis using assms(2) equalize_frame by simp
  next
    case False
    then have "h3 = h2" using assms(2) by simp
    moreover have "models h2 = (models h2)[model (objects h2 ! b) := models h2 ! model (objects h2 ! b)]"
      by simp
    ultimately show ?thesis by metis
  qed
  from 1 2 show ?thesis by (auto simp: list_update_overwrite)
qed

lemma debias_frame:
  assumes "debias h a method nw es inplace = (r, h')"
  shows "\<exists>b h1 m. (b, h1) = (if inplace then (a, h) else deepcopy_object h a) \<and>
           objects h' = objects h1 \<and> models h' = (models h1)[model (objects h1 ! b) := m] \<and>
           (\<forall>ret. r = Inr ret \<longrightarrow> ret = (if inplace then None else Some b))"
proof -
  obtain b h1 where bh: "(if inplace then (a, h) else deepcopy_object h a) = (b, h1)"
    by (cases "if inplace then (a, h) else deepcopy_object h a") auto
  have id: "models h1 = (models h1)[model (objects h1 ! b) := models h1 ! model (objects h1 ! b)]"
    by simp
  show ?thesis
  proof (cases "method \<in> set DEBIAS_METHODS")
    case False
    then have "h' = h1" and "\<forall>ret. r \<noteq> Inr ret" using assms bh by (auto simp: debias_def)
    then show ?thesis using bh id by metis
  next
    case True
    obtain r2 h2 where s1: "(if method \<in> set [''hard'', ''neutralize'']
               then neutralize h1 b nw else (Inr (), h1)) = (r2, h2)"
      by (cases "if method \<in> set [''hard'', ''neutralize'']
               then neutralize h1 b nw else (Inr (), h1)") auto
    obtain r3 h3 where s2: "(if method = ''hard'' \<and> (\<exists>u. r2 = Inr u)
                    then equalize h2 b es else (Inr (), h2)) = (r3, h3)"
      by (cases "if method = ''hard'' \<and> (\<exists>u. r2 = Inr u)
                    then equalize h2 b es else (Inr (), h2)") auto
    have "h' = h3" using assms bh True s1 s2
      by (cases r2; cases r3) (auto simp: debias_def split: if_splits)
    moreover have "\<forall>ret. r = Inr ret \<longrightarrow> ret = (if inplace then None else Some b)"
      using assms bh True s1 s2
      by (cases r2; cases r3) (auto simp: debias_def split: if_splits)
    ultimately show ?thesis using steps_frame [OF s1 s2] bh by metis
  qed
qed


lemma example_debias:
  "debias (example_heap (Some [1, 0])) 0 ''neutralize'' (Some [''doctor'']) None False =
     (Inr (Some 1), example_debiased)"
  by (simp add: example_debiased_def debias_def DEBIAS_METHODS_def deepcopy_object_eq example_heap_def example_store_def
      init_def self_model_def neutralize_def is_direction_identified_def finish_def
      set_self_model_def model_getitem_def update_word_vector_def reject_row_def
      reject_vector_def project_vector_def dot_def smul_def vsub_def init_sims_replace_def
      init_sims_row_def linalg_norm_def sdiv_def)


lemma example_valid: "valid_object (example_heap dir) 0"
  by (simp add: valid_object_def example_heap_def init_def)

text \<open>
  C5: a call of debias with \<open>inplace = False\<close>, whatever the method, the neutral words and
  the equality sets, and whether it returns or raises, leaves the original object (its
  direction and end labels among its fields) and every vector of its store as they were:
  all objects and all stores that existed before the call are unchanged, and the call
  writes only to the store that the deep copy allocated.
\<close>

theorem debias_not_inplace_frame:
  assumes "valid_object h a" and "debias h a method nw es False = (r, h')"
  shows "objects h' ! a = objects h ! a \<and> self_model h' a = self_model h a \<and>
         take (length (objects h)) (objects h') = objects h \<and>
         take (length (models h)) (models h') = models h"
proof -
  from debias_frame [OF assms(2)] obtain b h1 m where
    bh: "(b, h1) = deepcopy_object h a" and
    o: "objects h' = objects h1" and mo: "models h' = (models h1)[model (objects h1 ! b) := m]"
    by auto
  from bh have b: "b = length (objects h)" and
    h1o: "objects h1 = objects h @ [\<lparr>model = length (models h), only_lower = False, verbose = False,
          direction = direction (objects h ! a), positive_end = positive_end (objects h ! a),
          negative_end = negative_end (objects h ! a)\<rparr>]" and
    h1m: "models h1 = models h @ [self_model h a]"
    by (simp_all add: deepcopy_object_eq)
  from b h1o have k: "model (objects h1 ! b) = length (models h)" by simp
  have objs: "take (length (objects h)) (objects h') = objects h"
    using o h1o by simp
  have mods: "take (length (models h)) (models h') = models h"
    using mo h1m k by simp
  from assms(1) have a: "a < length (objects h)" and ma: "model (objects h ! a) < length (models h)"
    by (simp_all add: valid_object_def)
  have oa: "objects h' ! a = objects h ! a"
    using o h1o a by (simp add: nth_append)
  have "models h' ! model (objects h ! a) = models h ! model (objects h ! a)"
    using mo h1m k ma by (simp add: nth_append)
  with oa have "self_model h' a = self_model h a" by (simp add: self_model_def)
  with oa objs mods show ?thesis by simp
qed

theorem debias_not_inplace_frame_witness:
  "valid_object (example_heap (Some [1, 0])) 0 \<and>
   debias (example_heap (Some [1, 0])) 0 ''neutralize'' (Some [''doctor'']) None False =
     (Inr (Some 1), example_debiased) \<and>
   objects example_debiased ! 0 = objects (example_heap (Some [1, 0])) ! 0 \<and>
   self_model example_debiased 0 = example_store \<and>
   self_model example_debiased 1 \<noteq> example_store"
proof -
  have "self_model example_debiased 1 \<noteq> example_store"
    by (simp add: self_model_def example_debiased_def example_store_def init_def)
  moreover have "self_model (example_heap (Some [1, 0])) 0 = example_store"
    by (simp add: self_model_def example_heap_def init_def)
  ultimately show ?thesis
    using debias_not_inplace_frame [OF example_valid example_debias] example_valid example_debias
    by simp
qed

text \<open>
  C10: a call of debias that returns gives \<^verbatim>\<open>None\<close> when \<open>inplace\<close> is true, and
  leaves the set of objects as it was; when \<open>inplace\<close> is false it gives the object that
  the deep copy allocated, which is not the original one and whose store is a new one,
  not that of the original.
\<close>

theorem debias_return_value:
  assumes "valid_object h a" and "debias h a method nw es inplace = (Inr ret, h')"
  shows "(if inplace then ret = None \<and> objects h' = objects h
          else ret = Some (length (objects h)) \<and> length (objects h) \<noteq> a \<and>
               length (objects h) < length (objects h') \<and>
               model (objects h' ! length (objects h)) = length (models h) \<and>
               model (objects h' ! a) < length (models h))"
proof (cases inplace)
  case True
  from debias_frame [OF assms(2)] True have "objects h' = objects h" by auto
  moreover have "ret = None" using debias_frame [OF assms(2)] True by auto
  ultimately show ?thesis using True by simp
next
  case False
  from debias_frame [OF assms(2)] False obtain b h1 m where
    bh: "(b, h1) = deepcopy_object h a" and
    o: "objects h' = objects h1" and rb: "ret = Some b"
    by auto
  from bh have b: "b = length (objects h)" and
    h1o: "objects h1 = objects h @ [\<lparr>model = length (models h), only_lower = False, verbose = False,
          direction = direction (objects h ! a), positive_end = positive_end (objects h ! a),
          negative_end = negative_end (objects h ! a)\<rparr>]"
    by (simp_all add: deepcopy_object_eq)
  from assms(1) have a: "a < length (objects h)" and ma: "model (objects h ! a) < length (models h)"
    by (simp_all add: valid_object_def)
  from rb b o h1o a ma False show ?thesis by (simp add: nth_append)
qed


theorem debias_return_value_witness:
  "valid_object (example_heap (Some [1, 0])) 0 \<and>
   debias (example_heap (Some [1, 0])) 0 ''neutralize'' (Some [''doctor'']) None False =
     (Inr (Some 1), example_debiased) \<and>
   length (objects (example_heap (Some [1, 0]))) = 1 \<and>
   model (objects example_debiased ! 1) = 1 \<and> model (objects example_debiased ! 0) = 0"
  using debias_return_value [OF example_valid example_debias] example_valid example_debias
  by (simp add: example_heap_def example_debiased_def init_def)

section \<open>Calls before the identification\<close>

lemma direction_of_copy:
  "direction (objects (snd (deepcopy_object h a)) ! fst (deepcopy_object h a)) = direction (objects h ! a)"
  by (simp add: deepcopy_object_eq)


text \<open>
  C7: on an object whose direction is \<^verbatim>\<open>None\<close>, \<open>project_on_direction\<close>,
  \<open>calc_direct_bias\<close> and \<open>calc_indirect_bias\<close> raise the error of the direction that was
  not identified, and so does the neutralize step, called alone or from debias with the
  method \<^verbatim>\<open>neutralize\<close> or \<^verbatim>\<open>hard\<close>. The heap is returned as it was; with
  \<open>inplace = False\<close> the deep copy has been made by then, and its store is a copy of the
  original one: no vector has changed.
\<close>

theorem direction_not_identified:
  assumes "direction (objects h ! a) = None"
  shows "project_on_direction h a w = Inl RuntimeError_direction_not_identified \<and>
         calc_direct_bias h a ws c = Inl RuntimeError_direction_not_identified \<and>
         calc_indirect_bias h a w1 w2 = Inl RuntimeError_direction_not_identified \<and>
         neutralize h a nw = (Inl RuntimeError_direction_not_identified, h) \<and>
         debias h a ''neutralize'' nw es True = (Inl RuntimeError_direction_not_identified, h) \<and>
         debias h a ''hard'' nw es True = (Inl RuntimeError_direction_not_identified, h) \<and>
         debias h a ''neutralize'' nw es False =
           (Inl RuntimeError_direction_not_identified, snd (deepcopy_object h a)) \<and>
         debias h a ''hard'' nw es False =
           (Inl RuntimeError_direction_not_identified, snd (deepcopy_object h a)) \<and>
         models (snd (deepcopy_object h a)) = models h @ [self_model h a]"
proof -
  have idf: "is_direction_identified (objects h ! a) = Inl RuntimeError_direction_not_identified"
    using assms by (simp add: is_direction_identified_def)
  have p: "project_on_direction h a w = Inl RuntimeError_direction_not_identified"
    by (simp add: project_on_direction_def idf ebind_def)
  have s: "calc_projection_scores h a ws = Inl RuntimeError_direction_not_identified"
    by (simp add: calc_projection_scores_def idf ebind_def)
  have d: "calc_direct_bias h a ws c = Inl RuntimeError_direction_not_identified"
    by (simp add: calc_direct_bias_def s ebind_def)
  have i: "calc_indirect_bias h a w1 w2 = Inl RuntimeError_direction_not_identified"
    by (simp add: calc_indirect_bias_def idf ebind_def)
  have n: "neutralize h a nw = (Inl RuntimeError_direction_not_identified, h)"
    by (simp add: neutralize_def idf)
  have "direction (objects (snd (deepcopy_object h a)) ! fst (deepcopy_object h a)) = None"
    using assms by (simp add: direction_of_copy)
  then have nc: "neutralize (snd (deepcopy_object h a)) (fst (deepcopy_object h a)) nw =
      (Inl RuntimeError_direction_not_identified, snd (deepcopy_object h a))"
    by (simp add: neutralize_def is_direction_identified_def)
  have b1: "debias h a ''neutralize'' nw es True = (Inl RuntimeError_direction_not_identified, h)"
    by (simp add: debias_def DEBIAS_METHODS_def n)
  have b2: "debias h a ''hard'' nw es True = (Inl RuntimeError_direction_not_identified, h)"
    by (simp add: debias_def DEBIAS_METHODS_def n)
  have b3: "debias h a ''neutralize'' nw es False =
           (Inl RuntimeError_direction_not_identified, snd (deepcopy_object h a))"
    by (simp add: debias_def DEBIAS_METHODS_def nc split_beta)
  have b4: "debias h a ''hard'' nw es False =
           (Inl RuntimeError_direction_not_identified, snd (deepcopy_object h a))"
    by (simp add: debias_def DEBIAS_METHODS_def nc split_beta)
  have m: "models (snd (deepcopy_object h a)) = models h @ [self_model h a]"
    by (simp add: deepcopy_object_eq)
  from p d i n b1 b2 b3 b4 m show ?thesis by simp
qed

theorem direction_not_identified_witness:
  "direction (objects (example_heap None) ! 0) = None \<and>
   project_on_direction (example_heap None) 0 ''he'' = Inl RuntimeError_direction_not_identified \<and>
   calc_direct_bias (example_heap None) 0 [''doctor''] None =
     Inl RuntimeError_direction_not_identified \<and>
   debias (example_heap None) 0 ''hard'' (Some [''doctor'']) (Some [[''he'', ''she'']]) True =
     (Inl RuntimeError_direction_not_identified, example_heap None)"
proof -
  have d: "direction (objects (example_heap None) ! 0) = None"
    by (simp add: example_heap_def init_def)
  from direction_not_identified [OF d] d show ?thesis by simp
qed

section \<open>The default neutral words\<close>

lemma extend_specific_words_eq:
  "extend_specific_words ws acc = acc \<union> (\<Union>s \<in> set ws. {s, lower s, upper s, title s})"
  by (induction ws arbitrary: acc) auto

lemma neutralize_none:
  assumes "direction (objects h ! a) = Some d"
  shows "neutralize h a None = (Inl TypeError, h)"
  using assms by (simp add: neutralize_def is_direction_identified_def)

text \<open>
  C6, as stated: a call of debias without a list of neutral words neutralizes the
  vocabulary words that are no case variant of a specific word. The function debias
  takes no set of specific words and does not call \<open>extract_neutral_words\<close>: on the
  small store, with the direction identified, the call without a list raises
  \<^verbatim>\<open>TypeError\<close> and changes nothing, where the words left by
  \<open>extract_neutral_words\<close>, passed by the caller, are neutralized.
\<close>

theorem debias_default_neutral_words_counterexample:
  "debias (example_heap (Some [1, 0])) 0 ''neutralize'' None None True =
     (Inl TypeError, example_heap (Some [1, 0])) \<and>
   extract_neutral_words example_store [''He'', ''she''] = [''doctor''] \<and>
   debias (example_heap (Some [1, 0])) 0 ''neutralize'' (Some [''doctor'']) None True =
     (Inr None, \<lparr>models = [[(''he'', Row [1, 0]), (''she'', Row [0, 1]), (''doctor'', Row [0, 1])]],
        objects = [(init 0)\<lparr>direction := Some [1, 0]\<rparr>]\<rparr>)"
proof -
  have 1: "debias (example_heap (Some [1, 0])) 0 ''neutralize'' None None True =
     (Inl TypeError, example_heap (Some [1, 0]))"
    by (simp add: debias_def DEBIAS_METHODS_def neutralize_def is_direction_identified_def
        example_heap_def init_def)
  have 2: "extract_neutral_words example_store [''He'', ''she''] = [''doctor'']"
    by code_simp
  have 3: "debias (example_heap (Some [1, 0])) 0 ''neutralize'' (Some [''doctor'']) None True =
     (Inr None, \<lparr>models = [[(''he'', Row [1, 0]), (''she'', Row [0, 1]), (''doctor'', Row [0, 1])]],
        objects = [(init 0)\<lparr>direction := Some [1, 0]\<rparr>]\<rparr>)"
    by (simp add: debias_def DEBIAS_METHODS_def example_heap_def example_store_def
      init_def self_model_def neutralize_def is_direction_identified_def finish_def
      set_self_model_def model_getitem_def update_word_vector_def reject_row_def
      reject_vector_def project_vector_def dot_def smul_def vsub_def init_sims_replace_def
      init_sims_row_def linalg_norm_def sdiv_def)
  from 1 2 3 show ?thesis by simp
qed


text \<open>
  C6, amended: \<open>extract_neutral_words\<close> returns, in the order of the vocabulary, exactly
  the vocabulary words that are none of \<open>s\<close>, \<open>lower s\<close>, \<open>upper s\<close>, \<open>title s\<close> for
  any specific word \<open>s\<close>. The function debias does not use it: called without a list of
  neutral words on an object whose direction is identified, the neutralize step raises
  \<^verbatim>\<open>TypeError\<close> and leaves the heap as it was; the caller has to pass the list.
\<close>

theorem extract_neutral_words_complement:
  "extract_neutral_words m specific_words =
     filter (\<lambda>w. \<forall>s \<in> set specific_words. w \<noteq> s \<and> w \<noteq> lower s \<and> w \<noteq> upper s \<and> w \<noteq> title s)
       (vocab m) \<and>
   (direction (objects h ! a) \<noteq> None \<longrightarrow>
      debias h a ''neutralize'' None es True = (Inl TypeError, h) \<and>
      debias h a ''hard'' None es True = (Inl TypeError, h))"
proof -
  have 1: "extract_neutral_words m specific_words =
     filter (\<lambda>w. \<forall>s \<in> set specific_words. w \<noteq> s \<and> w \<noteq> lower s \<and> w \<noteq> upper s \<and> w \<noteq> title s)
       (vocab m)"
    unfolding extract_neutral_words_def Let_def extend_specific_words_eq
    by (rule filter_cong) auto
  have 2: "debias h a ''neutralize'' None es True = (Inl TypeError, h) \<and>
      debias h a ''hard'' None es True = (Inl TypeError, h)" if "direction (objects h ! a) \<noteq> None"
  proof -
    from that obtain d where "direction (objects h ! a) = Some d" by auto
    then have "neutralize h a None = (Inl TypeError, h)" by (rule neutralize_none)
    then show ?thesis by (simp add: debias_def DEBIAS_METHODS_def)
  qed
  from 1 2 show ?thesis by blast
qed

theorem extract_neutral_words_complement_witness:
  "extract_neutral_words example_store [''He''] = [''she'', ''doctor''] \<and>
   direction (objects (example_heap (Some [1, 0])) ! 0) \<noteq> None \<and>
   debias (example_heap (Some [1, 0])) 0 ''neutralize'' None None True =
     (Inl TypeError, example_heap (Some [1, 0]))"
proof -
  have d: "direction (objects (example_heap (Some [1, 0])) ! 0) \<noteq> None"
    by (simp add: example_heap_def init_def)
  have l: "lower ''He'' = ''he''" "upper ''He'' = ''HE''" "title ''He'' = ''He''"
    by code_simp+
  show ?thesis
    using extract_neutral_words_complement [of example_store "[''He'']"
        "example_heap (Some [1, 0])" 0 None] d
    by (simp add: l vocab_def example_store_def)
qed

section \<open>The training data of the specific words\<close>

lemma model_getitem_vocab:
  assumes "w \<in> set (vocab m)"
  shows "model_getitem m w = Inr (the (map_of m w))"
proof -
  from assms have "w \<in> fst ` set m" by (simp add: vocab_def)
  then obtain r where "map_of m w = Some r"
    by (metis domD dom_map_of_conv_image_fst)
  then show ?thesis by (simp add: model_getitem_def)
qed

lemma training_data_selection:
  assumes "set ws \<subseteq> set (vocab m)"
  shows "\<exists>sel. training_data m ws seeds n count =
             Inr (map (\<lambda>w. (the (map_of m w), w \<in> set seeds)) sel) \<and>
           filter (\<lambda>w. w \<in> set seeds) sel = filter (\<lambda>w. w \<in> set seeds) ws \<and>
           filter (\<lambda>w. w \<notin> set seeds) sel =
             take (nat (n - count)) (filter (\<lambda>w. w \<notin> set seeds) ws)"
  using assms
proof (induction ws arbitrary: count)
  case Nil
  then show ?case by simp
next
  case (Cons w ws)
  from Cons.prems have w: "model_getitem m w = Inr (the (map_of m w))"
    by (simp add: model_getitem_vocab)
  from Cons.prems have sub: "set ws \<subseteq> set (vocab m)" by simp
  show ?case
  proof (cases "w \<in> set seeds")
    case True
    from Cons.IH [OF sub, of count] obtain sel where
      sel: "training_data m ws seeds n count =
             Inr (map (\<lambda>w. (the (map_of m w), w \<in> set seeds)) sel)"
        "filter (\<lambda>w. w \<in> set seeds) sel = filter (\<lambda>w. w \<in> set seeds) ws"
        "filter (\<lambda>w. w \<notin> set seeds) sel =
             take (nat (n - count)) (filter (\<lambda>w. w \<notin> set seeds) ws)"
      by blast
    have "training_data m (w # ws) seeds n count =
        Inr (map (\<lambda>w. (the (map_of m w), w \<in> set seeds)) (w # sel))"
      using True w sel(1) by (simp add: ebind_def)
    moreover have "filter (\<lambda>w. w \<in> set seeds) (w # sel) = filter (\<lambda>w. w \<in> set seeds) (w # ws)"
      using True sel(2) by simp
    moreover have "filter (\<lambda>w. w \<notin> set seeds) (w # sel) =
             take (nat (n - count)) (filter (\<lambda>w. w \<notin> set seeds) (w # ws))"
      using True sel(3) by simp
    ultimately show ?thesis by blast
  next
    case False
    from Cons.IH [OF sub, of "count + 1"] obtain sel where
      sel: "training_data m ws seeds n (count + 1) =
             Inr (map (\<lambda>w. (the (map_of m w), w \<in> set seeds)) sel)"
        "filter (\<lambda>w. w \<in> set seeds) sel = filter (\<lambda>w. w \<in> set seeds) ws"
        "filter (\<lambda>w. w \<notin> set seeds) sel =
             take (nat (n - (count + 1))) (filter (\<lambda>w. w \<notin> set seeds) ws)"
      by blast
    show ?thesis
    proof (cases "count + 1 \<le> n")
      case le: True
      then have nat: "nat (n - count) = Suc (nat (n - (count + 1)))" by simp
      have "training_data m (w # ws) seeds n count =
          Inr (map (\<lambda>w. (the (map_of m w), w \<in> set seeds)) (w # sel))"
        using False le w sel(1) by (simp add: ebind_def)
      moreover have "filter (\<lambda>w. w \<in> set seeds) (w # sel) = filter (\<lambda>w. w \<in> set seeds) (w # ws)"
        using False sel(2) by simp
      moreover have "filter (\<lambda>w. w \<notin> set seeds) (w # sel) =
             take (nat (n - count)) (filter (\<lambda>w. w \<notin> set seeds) (w # ws))"
        using False sel(3) by (simp add: nat del: One_nat_def)
      ultimately show ?thesis by blast
    next
      case gt: False
      then have nat: "nat (n - count) = 0" "nat (n - (count + 1)) = 0" by simp_all
      have "training_data m (w # ws) seeds n count =
          Inr (map (\<lambda>w. (the (map_of m w), w \<in> set seeds)) sel)"
        using False gt sel(1) by simp
      moreover have "filter (\<lambda>w. w \<notin> set seeds) sel =
             take (nat (n - count)) (filter (\<lambda>w. w \<notin> set seeds) (w # ws))"
        using sel(3) nat by simp
      moreover have "filter (\<lambda>w. w \<in> set seeds) sel = filter (\<lambda>w. w \<in> set seeds) (w # ws)"
        using False sel(2) by simp
      ultimately show ?thesis by blast
    qed
  qed
qed

text \<open>
  C9, as stated: the data hold every seed word with the label true. The loop runs over
  the vocabulary, so a seed word that the store does not know (here \<open>queen\<close>) gives no
  entry: the data are those of \<open>he\<close>, labelled true, and of the first other word.
\<close>

theorem training_data_missing_seed_counterexample:
  "learn_full_specific_words_data example_store [''he'', ''queen''] (Some 1) =
     Inr [(Row [1, 0], True), (Row [0, 1], False)] \<and>
   model_getitem example_store ''queen'' = Inl (KeyError ''queen'')"
  by (simp add: learn_full_specific_words_data_def vocab_def example_store_def
      model_getitem_def ebind_def)


text \<open>
  C9, amended: for every list of seed words and every cap (1000 when none is given) the
  data built by \<open>learn_full_specific_words\<close> are the entries \<open>(vector, label)\<close> of a list
  of words \<open>sel\<close>, where the label says whether the word is a seed word, the seed words of
  \<open>sel\<close> are the vocabulary words that are seed words, in the order of the vocabulary, and
  the other words of \<open>sel\<close> are the first \<open>max_non_specific_examples\<close> vocabulary words
  that are no seed words. Seed words outside the vocabulary do not occur.
\<close>

theorem learn_full_specific_words_data_content:
  "\<exists>sel. learn_full_specific_words_data m seeds max_arg =
            Inr (map (\<lambda>w. (the (map_of m w), w \<in> set seeds)) sel) \<and>
         filter (\<lambda>w. w \<in> set seeds) sel = filter (\<lambda>w. w \<in> set seeds) (vocab m) \<and>
         filter (\<lambda>w. w \<notin> set seeds) sel =
           take (nat (case max_arg of None \<Rightarrow> MAX_NON_SPECIFIC_EXAMPLES | Some n \<Rightarrow> n))
             (filter (\<lambda>w. w \<notin> set seeds) (vocab m))"
  using training_data_selection [of "vocab m" m seeds
      "case max_arg of None \<Rightarrow> MAX_NON_SPECIFIC_EXAMPLES | Some n \<Rightarrow> n" 0]
  by (simp add: learn_full_specific_words_data_def)

section \<open>Vector algebra\<close>

lemma dot_simps [simp]:
  "dot [] u = 0" "dot v [] = 0" "dot (a # v) (b # u) = a * b + dot v u"
  by (simp_all add: dot_def)

lemma vadd_simps [simp]:
  "vadd [] u = []" "vadd v [] = []" "vadd (a # v) (b # u) = (a + b) # vadd v u"
  by (simp_all add: vadd_def)

lemma vsub_simps [simp]:
  "vsub [] u = []" "vsub v [] = []" "vsub (a # v) (b # u) = (a - b) # vsub v u"
  by (simp_all add: vsub_def)

lemma smul_simps [simp]: "smul c [] = []" "smul c (a # v) = (c * a) # smul c v"
  by (simp_all add: smul_def)

lemma sdiv_simps [simp]: "sdiv [] c = []" "sdiv (a # v) c = (a / c) # sdiv v c"
  by (simp_all add: sdiv_def)

lemma vneg_simps [simp]: "vneg [] = []" "vneg (a # v) = (- a) # vneg v"
  by (simp_all add: vneg_def)

lemma length_vadd [simp]: "length (vadd v u) = min (length v) (length u)"
  by (simp add: vadd_def)

lemma length_vsub [simp]: "length (vsub v u) = min (length v) (length u)"
  by (simp add: vsub_def)

lemma length_smul [simp]: "length (smul c v) = length v"
  by (simp add: smul_def)

lemma length_sdiv [simp]: "length (sdiv v c) = length v"
  by (simp add: sdiv_def)

lemma dot_commute: "dot v u = dot u v"
proof (induction v arbitrary: u)
  case Nil
  show ?case by simp
next
  case (Cons a v)
  then show ?case by (cases u) simp_all
qed

lemma dot_smul_left: "dot (smul c v) u = c * dot v u"
proof (induction v arbitrary: u)
  case Nil
  show ?case by simp
next
  case (Cons a v)
  then show ?case by (cases u) (simp_all add: algebra_simps)
qed

lemma dot_smul_right: "dot v (smul c u) = c * dot v u"
  by (metis dot_commute dot_smul_left)

lemma dot_sdiv_left: "dot (sdiv v c) u = dot v u / c"
proof (induction v arbitrary: u)
  case Nil
  show ?case by simp
next
  case (Cons a v)
  then show ?case by (cases u) (simp_all add: add_divide_distrib)
qed

lemma dot_vneg_right: "dot v (vneg u) = - dot v u"
proof (induction v arbitrary: u)
  case Nil
  show ?case by simp
next
  case (Cons a v)
  then show ?case by (cases u) simp_all
qed

lemma dot_vadd_left:
  assumes "length v = length u"
  shows "dot (vadd v u) d = dot v d + dot u d"
  using assms
proof (induction v u arbitrary: d rule: list_induct2)
  case Nil
  show ?case by simp
next
  case (Cons a v b u)
  then show ?case by (cases d) (simp_all add: algebra_simps)
qed

lemma dot_vsub_left:
  assumes "length v = length u"
  shows "dot (vsub v u) d = dot v d - dot u d"
  using assms
proof (induction v u arbitrary: d rule: list_induct2)
  case Nil
  show ?case by simp
next
  case (Cons a v b u)
  then show ?case by (cases d) (simp_all add: algebra_simps)
qed

lemma dot_self_nonneg: "0 \<le> dot v v"
  by (induction v) simp_all

lemma linalg_norm_sq: "(linalg_norm v)\<^sup>2 = dot v v"
  by (simp add: linalg_norm_def dot_self_nonneg)

lemma linalg_norm_one_dot: "linalg_norm d = 1 \<Longrightarrow> dot d d = 1"
  using linalg_norm_sq [of d] by simp

lemma linalg_norm_smul: "linalg_norm (smul c v) = \<bar>c\<bar> * linalg_norm v"
  by (simp add: linalg_norm_def dot_smul_left dot_smul_right real_sqrt_mult flip: mult.assoc)

lemma linalg_norm_sdiv: "linalg_norm (sdiv v c) = linalg_norm v / \<bar>c\<bar>"
proof -
  have "sdiv v c = smul (1 / c) v" by (induction v) simp_all
  then show ?thesis by (simp add: linalg_norm_smul)
qed

lemma linalg_norm_vneg: "linalg_norm (vneg v) = linalg_norm v"
proof -
  have "vneg v = smul (- 1) v" by (induction v) simp_all
  then show ?thesis by (simp add: linalg_norm_smul)
qed

lemma vsub_smul_smul: "vsub (smul a d) (smul b d) = smul (a - b) d"
  by (induction d) (simp_all add: algebra_simps)

lemma smul_smul: "smul a (smul b d) = smul (a * b) d"
  by (induction d) simp_all

lemma sdiv_smul: "sdiv (smul a d) c = smul (a / c) d"
  by (induction d) simp_all

lemma sdiv_one: "sdiv v 1 = v"
  by (induction v) simp_all

lemma vadd_smul_vsub:
  assumes "length v = length d"
  shows "vsub (vadd v (smul t d)) (smul t d) = v"
  using assms by (induction v d rule: list_induct2) simp_all

lemma vsub_smul_zero:
  assumes "length v = length d"
  shows "vsub v (smul 0 d) = v"
  using assms by (induction v d rule: list_induct2) simp_all

lemma dot_reject_vector:
  assumes "length v = length d" and "linalg_norm d = 1"
  shows "dot (reject_vector v d) d = 0"
  using assms
  by (simp add: reject_vector_def project_vector_def dot_vsub_left dot_smul_left
      linalg_norm_one_dot)

lemma reject_vector_idem:
  assumes "length v = length d" and "linalg_norm d = 1"
  shows "reject_vector (reject_vector v d) d = reject_vector v d"
proof -
  have "length (reject_vector v d) = length d"
    using assms by (simp add: reject_vector_def project_vector_def)
  then show ?thesis
    using dot_reject_vector [OF assms]
    by (simp add: reject_vector_def [of "reject_vector v d"] project_vector_def vsub_smul_zero)
qed

lemma cosine_similarity_vneg:
  "cosine_similarity v (vneg d) = map_option uminus (cosine_similarity v d)"
  by (simp add: cosine_similarity_def linalg_norm_vneg dot_vneg_right)

section \<open>The sign of the identified direction\<close>

lemma calibrate_sign_cosine:
  assumes "calibrate_sign m pos neg d0 = Inr d"
  shows "\<exists>vp vn. get_vector m pos = Inr vp \<and> get_vector m neg = Inr vn \<and>
           (case cosine_similarity (vsub vp vn) d of
              None \<Rightarrow> linalg_norm (vsub vp vn) = 0 \<or> linalg_norm d = 0
            | Some c \<Rightarrow> 0 \<le> c)"
proof -
  from assms obtain vp vn where vp: "get_vector m pos = Inr vp" and vn: "get_vector m neg = Inr vn"
    and d: "d = (if nan_less (cosine_similarity (vsub vp vn) d0) 0 then vneg d0 else d0)"
    by (auto simp: calibrate_sign_def ebind_def Let_def split: sum.splits)
  have "case cosine_similarity (vsub vp vn) d of
              None \<Rightarrow> linalg_norm (vsub vp vn) = 0 \<or> linalg_norm d = 0
            | Some c \<Rightarrow> 0 \<le> c"
  proof (cases "cosine_similarity (vsub vp vn) d0")
    case None
    then have "d = d0" using d by (simp add: nan_less_def)
    with None show ?thesis by (simp add: cosine_similarity_def split: if_splits)
  next
    case (Some c)
    show ?thesis
    proof (cases "c < 0")
      case True
      then have "d = vneg d0" using d Some by (simp add: nan_less_def)
      then show ?thesis using Some True by (simp add: cosine_similarity_vneg)
    next
      case False
      then have "d = d0" using d Some by (simp add: nan_less_def)
      then show ?thesis using Some False by simp
    qed
  qed
  with vp vn show ?thesis by blast
qed

text \<open>
  C3, as stated: after every identification that succeeds, the cosine of
  \<open>vector positive_end - vector negative_end\<close> with the stored direction is at least 0.
  When the two ends have the same vector the difference is the zero vector, the cosine
  is \<^verbatim>\<open>0/0\<close>, the sign test compares \<^verbatim>\<open>nan\<close> with 0 and the identification
  succeeds; the cosine with the stored direction is \<^verbatim>\<open>nan\<close>, which is not at least 0.
\<close>

theorem identify_direction_sign_counterexample:
  "identify_direction no_pca tied_heap 0 ''he'' ''she'' (Words [''man'', ''woman'']) ''single'' =
     (Inr (), set_direction tied_heap 0 [1, 0] ''he'' ''she'') \<and>
   get_vector tied_store ''he'' = Inr [1, 0] \<and> get_vector tied_store ''she'' = Inr [1, 0] \<and>
   cosine_similarity (vsub [1, 0] [1, 0]) [1, 0] = None"
  by (simp add: identify_direction_def DIRECTION_METHODS_def compute_direction_def
      direction_single_def index_def ebind_def tied_heap_def tied_store_def self_model_def init_def
      get_vector_def model_getitem_def normalize_vector_def linalg_norm_def calibrate_sign_def
      cosine_similarity_def nan_less_def)

text \<open>
  C3, amended: after an identification that succeeds, by whichever method, the object
  holds the direction and the two ends, and the cosine of
  \<open>vector positive_end - vector negative_end\<close> with the stored direction is at least 0
  whenever it is a number; it is \<^verbatim>\<open>nan\<close> only when the vectors of the two ends
  coincide or the direction is the zero vector.
\<close>

theorem identify_direction_sign:
  assumes "valid_object h a"
    and "identify_direction fit h a pos neg defn method = (Inr u, h')"
  shows "\<exists>vp vn d. get_vector (self_model h' a) pos = Inr vp \<and>
           get_vector (self_model h' a) neg = Inr vn \<and>
           direction (objects h' ! a) = Some d \<and>
           positive_end (objects h' ! a) = Some pos \<and> negative_end (objects h' ! a) = Some neg \<and>
           (case cosine_similarity (vsub vp vn) d of
              None \<Rightarrow> linalg_norm (vsub vp vn) = 0 \<or> linalg_norm d = 0
            | Some c \<Rightarrow> 0 \<le> c)"
proof -
  from assms(2) obtain d0 d where
    "compute_direction fit (self_model h a) defn method = Inr d0" and
    cal: "calibrate_sign (self_model h a) pos neg d0 = Inr d" and
    h': "h' = set_direction h a d pos neg"
    by (auto simp: identify_direction_def ebind_def split: if_splits sum.splits)
  from assms(1) have a: "a < length (objects h)" by (simp add: valid_object_def)
  have m: "self_model h' a = self_model h a"
    using a by (simp add: h' set_direction_def self_model_def)
  have o: "direction (objects h' ! a) = Some d" "positive_end (objects h' ! a) = Some pos"
    "negative_end (objects h' ! a) = Some neg"
    using a by (simp_all add: h' set_direction_def)
  from calibrate_sign_cosine [OF cal] m o show ?thesis by auto
qed

theorem identify_direction_sign_witness:
  "valid_object tied_heap 0 \<and>
   identify_direction no_pca tied_heap 0 ''man'' ''woman'' (Pairs [(''woman'', ''man'')]) ''sum'' =
     (Inr (), set_direction tied_heap 0 [1, 0] ''man'' ''woman'') \<and>
   cosine_similarity (vsub [1, 0] [-1, 0]) [1, 0] = Some 1"
proof -
  have v: "valid_object tied_heap 0"
    by (simp add: valid_object_def tied_heap_def init_def)
  have i: "identify_direction no_pca tied_heap 0 ''man'' ''woman'' (Pairs [(''woman'', ''man'')]) ''sum'' =
     (Inr (), set_direction tied_heap 0 [1, 0] ''man'' ''woman'')"
    by (simp add: identify_direction_def DIRECTION_METHODS_def compute_direction_def
      direction_sum_def index_def ebind_def tied_heap_def tied_store_def self_model_def init_def
      get_vector_def model_getitem_def normalize_vector_def linalg_norm_def calibrate_sign_def
      cosine_similarity_def nan_less_def)
  have c: "cosine_similarity (vsub [1, 0] [-1, 0]) [1, 0] = Some 1"
    by (simp add: cosine_similarity_def linalg_norm_def)
  from identify_direction_sign [OF v i] v i c show ?thesis by simp
qed

text \<open>
  The directions that the methods \<^verbatim>\<open>single\<close> and \<^verbatim>\<open>sum\<close> identify are unit
  vectors; the sign test keeps the norm.
\<close>

lemma normalize_vector_unit:
  assumes "normalize_vector x = Inr v"
  shows "linalg_norm v = 1"
proof -
  from assms have n: "linalg_norm x \<noteq> 0" and v: "v = sdiv x (linalg_norm x)"
    by (auto simp: normalize_vector_def split: if_splits)
  with linalg_norm_nonneg [of x] show ?thesis by (simp add: linalg_norm_sdiv)
qed

lemma compute_direction_unit:
  assumes "method = ''single'' \<or> method = ''sum''"
    and "compute_direction fit m defn method = Inr d"
  shows "linalg_norm d = 1"
proof -
  from assms obtain x where "normalize_vector x = Inr d"
    by (auto simp: compute_direction_def direction_single_def direction_sum_def ebind_def
        split: definitional.splits sum.splits if_splits)
  then show ?thesis by (rule normalize_vector_unit)
qed

lemma calibrate_sign_norm:
  assumes "calibrate_sign m pos neg d0 = Inr d"
  shows "linalg_norm d = linalg_norm d0"
  using assms
  by (auto simp: calibrate_sign_def ebind_def Let_def linalg_norm_vneg split: sum.splits if_splits)

lemma identified_direction_unit:
  assumes "valid_object h a" and "method = ''single'' \<or> method = ''sum''"
    and "identify_direction fit h a pos neg defn method = (Inr u, h')"
  shows "\<exists>d. direction (objects h' ! a) = Some d \<and> linalg_norm d = 1"
proof -
  from assms(3) obtain d0 d where
    c: "compute_direction fit (self_model h a) defn method = Inr d0" and
    cal: "calibrate_sign (self_model h a) pos neg d0 = Inr d" and
    h': "h' = set_direction h a d pos neg"
    by (auto simp: identify_direction_def ebind_def split: if_splits sum.splits)
  from assms(1) have "a < length (objects h)" by (simp add: valid_object_def)
  then have "direction (objects h' ! a) = Some d" by (simp add: h' set_direction_def)
  moreover have "linalg_norm d = 1"
    using compute_direction_unit [OF assms(2) c] calibrate_sign_norm [OF cal] by simp
  ultimately show ?thesis by blast
qed

section \<open>Neutralized words\<close>

lemma map_of_update_word_vector:
  "map_of (update_word_vector m k r) k' =
     (if k' = k then map_option (\<lambda>old. r) (map_of m k) else map_of m k')"
  by (induction m) (auto simp: update_word_vector_def)

lemma map_of_init_sims_replace:
  "map_of (init_sims_replace m) k = map_option init_sims_row (map_of m k)"
  by (induction m) (auto simp: init_sims_replace_def)

lemma model_getitem_update_word_vector:
  "model_getitem (update_word_vector m k r) k' =
     (if k' = k then map_sum id (\<lambda>old. r) (model_getitem m k) else model_getitem m k')"
  by (simp add: model_getitem_def map_of_update_word_vector split: option.splits)

lemma model_getitem_init_sims_replace:
  "model_getitem (init_sims_replace m) k = map_sum id init_sims_row (model_getitem m k)"
  by (simp add: model_getitem_def map_of_init_sims_replace split: option.splits)

lemma vocab_update_word_vector [simp]: "vocab (update_word_vector m k r) = vocab m"
  by (induction m) (auto simp: update_word_vector_def vocab_def)

lemma model_getitem_known:
  assumes "w \<in> set (vocab m)"
  shows "\<exists>r. model_getitem m w = Inr r"
proof -
  from assms have "w \<in> fst ` set m" by (simp add: vocab_def)
  then obtain r where "map_of m w = Some r"
    by (metis domD dom_map_of_conv_image_fst)
  then show ?thesis by (simp add: model_getitem_def)
qed

text \<open>The row of a word that the loop has reached is its rejection; later passes keep it.\<close>

lemma neutralize_loop_row:
  assumes "linalg_norm d = 1" and "length v = length d"
    and "set ws \<subseteq> set (vocab m)"
    and "model_getitem m w = Inr (Row v) \<and> w \<in> set ws \<or>
         model_getitem m w = Inr (Row (reject_vector v d))"
  shows "\<exists>m'. neutralize_loop d ws m = (Inr (), m') \<and>
           model_getitem m' w = Inr (Row (reject_vector v d))"
  using assms(3,4)
proof (induction ws arbitrary: m)
  case Nil
  then show ?case by simp
next
  case (Cons k ws)
  from Cons.prems(1) obtain r where r: "model_getitem m k = Inr r"
    using model_getitem_known [of k m] by auto
  let ?m = "update_word_vector m k (reject_row r d)"
  from Cons.prems(1) have sub: "set ws \<subseteq> set (vocab ?m)" by simp
  have "model_getitem ?m w = Inr (Row v) \<and> w \<in> set ws \<or>
         model_getitem ?m w = Inr (Row (reject_vector v d))"
  proof (cases "w = k")
    case True
    with Cons.prems(2) r have "r = Row v \<or> r = Row (reject_vector v d)" by auto
    then have "reject_row r d = Row (reject_vector v d)"
      using reject_vector_idem [OF assms(2,1)] by (auto simp: reject_row_def)
    then show ?thesis using True r by (simp add: model_getitem_update_word_vector)
  next
    case False
    then show ?thesis using Cons.prems(2) by (auto simp: model_getitem_update_word_vector)
  qed
  from Cons.IH [OF sub this] show ?case using r by simp
qed

lemma project_unit_rejected:
  assumes "linalg_norm d = 1" and "length v = length d"
    and "linalg_norm (reject_vector v d) \<noteq> 0"
  shows "init_sims_row (Row (reject_vector v d)) =
           Row (sdiv (reject_vector v d) (linalg_norm (reject_vector v d))) \<and>
         cosine_similarities d [sdiv (reject_vector v d) (linalg_norm (reject_vector v d))] = [Some 0]"
proof -
  let ?r = "reject_vector v d"
  have n: "linalg_norm (sdiv ?r (linalg_norm ?r)) = 1"
    using assms(3) linalg_norm_nonneg [of ?r] by (simp add: linalg_norm_sdiv)
  have "dot (sdiv ?r (linalg_norm ?r)) d = 0"
    using dot_reject_vector [OF assms(2,1)] by (simp add: dot_sdiv_left)
  with n assms(1,3) show ?thesis
    by (simp add: init_sims_row_def cosine_similarities_def)
qed

lemma example_self_model: "self_model (example_heap dir) 0 = example_store"
  by (simp add: self_model_def example_heap_def init_def)

lemma example_direction: "direction (objects (example_heap dir) ! 0) = dir"
  by (simp add: example_heap_def init_def)

lemma unit_axis: "linalg_norm [1, 0] = 1"
  by (simp add: linalg_norm_def)

text \<open>
  C2: let the direction \<open>d\<close> of the object be identified, a unit vector, and let every
  neutral word be in the vocabulary. Then the neutralize step returns, and for every
  word \<open>w\<close> of the list whose vector has a component orthogonal to \<open>d\<close> that is not
  zero, \<open>project_on_direction w\<close> is 0 afterwards, the renormalization of the store
  included.
\<close>

theorem neutralized_projection_zero:
  assumes "valid_object h a"
    and "direction (objects h ! a) = Some d" and "linalg_norm d = 1"
    and "set neutral_words \<subseteq> set (vocab (self_model h a))"
    and "w \<in> set neutral_words"
    and "model_getitem (self_model h a) w = Inr (Row v)" and "length v = length d"
    and "linalg_norm (reject_vector v d) \<noteq> 0"
  shows "\<exists>h'. neutralize h a (Some neutral_words) = (Inr (), h') \<and>
           project_on_direction h' a w = Inr (Some 0)"
proof -
  from neutralize_loop_row [OF assms(3,7,4), of w] assms(5,6) obtain m' where
    loop: "neutralize_loop d neutral_words (self_model h a) = (Inr (), m')" and
    row: "model_getitem m' w = Inr (Row (reject_vector v d))"
    by blast
  let ?h = "set_self_model h a (init_sims_replace m')"
  have n: "neutralize h a (Some neutral_words) = (Inr (), ?h)"
    using assms(2) loop by (simp add: neutralize_def is_direction_identified_def finish_def)
  from assms(1) have "model (objects h ! a) < length (models h)" by (simp add: valid_object_def)
  then have sm: "self_model ?h a = init_sims_replace m'" and o: "objects ?h = objects h"
    by (simp_all add: self_model_def set_self_model_def)
  have "model_getitem (self_model ?h a) w =
      Inr (Row (sdiv (reject_vector v d) (linalg_norm (reject_vector v d))))"
    using row project_unit_rejected [OF assms(3,7,8)]
    by (simp add: sm model_getitem_init_sims_replace)
  then have "project_on_direction ?h a w = Inr (Some 0)"
    using assms(2) project_unit_rejected [OF assms(3,7,8)]
    by (simp add: project_on_direction_def is_direction_identified_def o ebind_def index_def)
  with n show ?thesis by blast
qed

theorem neutralized_projection_zero_witness:
  "valid_object (example_heap (Some [1, 0])) 0 \<and> linalg_norm [1, 0] = 1 \<and>
   model_getitem example_store ''doctor'' = Inr (Row [1, 1]) \<and>
   linalg_norm (reject_vector [1, 1] [1, 0]) \<noteq> 0 \<and>
   (\<exists>h'. neutralize (example_heap (Some [1, 0])) 0 (Some [''she'', ''doctor'']) = (Inr (), h') \<and>
      project_on_direction h' 0 ''doctor'' = Inr (Some 0))"
proof -
  have s: "set [''she'', ''doctor''] \<subseteq> set (vocab (self_model (example_heap (Some [1, 0])) 0))"
    by (simp add: example_self_model vocab_def example_store_def)
  have w: "''doctor'' \<in> set [''she'', ''doctor'']" by simp
  have g: "model_getitem (self_model (example_heap (Some [1, 0])) 0) ''doctor'' = Inr (Row [1, 1])"
    by (simp add: example_self_model model_getitem_def example_store_def)
  have l: "length [1, 1 :: real] = length [1, 0 :: real]" by simp
  have r: "linalg_norm (reject_vector [1, 1] [1, 0]) \<noteq> 0"
    by (simp add: reject_vector_def project_vector_def linalg_norm_def)
  from neutralized_projection_zero [OF example_valid example_direction unit_axis s w g l r]
  show ?thesis
    using example_valid unit_axis g r by (simp add: example_self_model)
qed

section \<open>Equalized pairs\<close>

lemma normalize_length:
  assumes "normalize_vector x = Inr v"
  shows "length v = length x"
  using assms by (auto simp: normalize_vector_def split: if_splits)

lemma normalize_smul_unit:
  assumes "linalg_norm d = 1" and "k \<noteq> 0"
  shows "normalize_vector (smul k d) = Inr (smul (sgn k) d)"
proof -
  have "k / \<bar>k\<bar> = sgn k" by (simp add: sgn_real_def)
  with assms show ?thesis
    by (simp add: normalize_vector_def linalg_norm_smul sdiv_smul)
qed

lemma equalize_scaling_unit:
  assumes "linalg_norm rc \<le> 1"
  shows "\<exists>s. equalize_scaling rc = Some s \<and> s\<^sup>2 = 1 - (linalg_norm rc)\<^sup>2"
proof -
  from assms linalg_norm_nonneg [of rc] have "(linalg_norm rc)\<^sup>2 \<le> 1"
    by (simp add: power_le_one_iff)
  then show ?thesis by (simp add: equalize_scaling_def np_sqrt_def)
qed

text \<open>The vector \<open>rc + t d\<close>, for \<open>rc\<close> orthogonal to the unit vector \<open>d\<close>.\<close>

lemma equalized_geometry:
  assumes "linalg_norm d = 1" and "length rc = length d" and "dot rc d = 0"
    and "t\<^sup>2 = 1 - (linalg_norm rc)\<^sup>2"
  shows "dot (vadd rc (smul t d)) d = t"
    and "reject_vector (vadd rc (smul t d)) d = rc"
    and "linalg_norm (vadd rc (smul t d)) = 1"
proof -
  let ?e = "vadd rc (smul t d)"
  have len: "length rc = length (smul t d)" using assms(2) by simp
  show p: "dot ?e d = t"
    using assms(1,3) by (simp add: dot_vadd_left [OF len] dot_smul_left linalg_norm_one_dot)
  show "reject_vector ?e d = rc"
    by (simp add: reject_vector_def project_vector_def p vadd_smul_vsub [OF assms(2)])
  have "dot ?e ?e = dot rc ?e + t * dot d ?e"
    by (simp add: dot_vadd_left [OF len] dot_smul_left)
  also have "dot rc ?e = dot rc rc"
    using assms(3) by (simp add: dot_commute [of rc ?e] dot_vadd_left [OF len] dot_smul_left
        dot_commute [of d rc])
  also have "dot d ?e = t"
    using p by (simp add: dot_commute [of d ?e])
  finally have "dot ?e ?e = (linalg_norm rc)\<^sup>2 + t\<^sup>2"
    by (simp add: linalg_norm_sq [of rc] power2_eq_square [of t])
  with assms(4) have "dot ?e ?e = 1" by simp
  then show "linalg_norm ?e = 1" by (simp add: linalg_norm_def)
qed

lemma init_sims_row_unit:
  assumes "linalg_norm e = 1"
  shows "init_sims_row (Row e) = Row e"
  using assms by (simp add: init_sims_row_def sdiv_one)

lemma get_vector_getitem: "get_vector m w = Inr v \<longleftrightarrow> model_getitem m w = Inr (Row v)"
  by (auto simp: get_vector_def split: sum.splits row.splits)

text \<open>
  C1: let the direction \<open>d\<close> of the object be identified, a unit vector, and let \<open>w1\<close>
  and \<open>w2\<close> be two words whose normalized vectors \<open>v1\<close>, \<open>v2\<close> have distinct
  projections on \<open>d\<close>, the component of their centroid orthogonal to \<open>d\<close> having norm
  at most 1. Then equalize on the set of the two words returns, and the vectors \<open>e1\<close>,
  \<open>e2\<close> that the store holds for them afterwards satisfy \<open>e1 \<cdot> d = - (e2 \<cdot> d)\<close>, and
  their components orthogonal to \<open>d\<close> are both that of the centroid.
\<close>

theorem equalize_pair_symmetric:
  assumes "valid_object h a"
    and "direction (objects h ! a) = Some d" and "linalg_norm d = 1"
    and "get_vector (self_model h a) w1 = Inr x1" and "get_vector (self_model h a) w2 = Inr x2"
    and "length x1 = length d" and "length x2 = length d"
    and "normalize_vector x1 = Inr v1" and "normalize_vector x2 = Inr v2"
    and "dot v1 d \<noteq> dot v2 d"
    and "linalg_norm (reject_vector (np_mean [v1, v2]) d) \<le> 1"
  shows "\<exists>h' e1 e2. equalize h a (Some [[w1, w2]]) = (Inr (), h') \<and>
           get_vector (self_model h' a) w1 = Inr e1 \<and>
           get_vector (self_model h' a) w2 = Inr e2 \<and>
           dot e1 d = - dot e2 d \<and>
           reject_vector e1 d = reject_vector (np_mean [v1, v2]) d \<and>
           reject_vector e2 d = reject_vector (np_mean [v1, v2]) d"
proof -
  let ?m = "self_model h a"
  let ?c = "np_mean [v1, v2]"
  let ?pc = "project_vector ?c d"
  let ?rc = "reject_vector ?c d"
  have l1: "length v1 = length d" and l2: "length v2 = length d"
    using assms(6-9) normalize_length by auto
  have c: "?c = sdiv (vadd v1 v2) 2" by (simp add: np_mean_def)
  have lc: "length ?c = length d" using l1 l2 by (simp add: c)
  have lrc: "length ?rc = length d"
    using lc by (simp add: reject_vector_def project_vector_def)
  have dc: "dot ?c d = (dot v1 d + dot v2 d) / 2"
    using l1 l2 by (simp add: c dot_sdiv_left dot_vadd_left)
  have orth: "dot ?rc d = 0" using dot_reject_vector [OF lc assms(3)] .
  define k where "k = (dot v1 d - dot v2 d) / 2"
  have k: "k \<noteq> 0" using assms(10) by (simp add: k_def)
  have pp1: "normalize_vector (vsub (project_vector v1 d) ?pc) = Inr (smul (sgn k) d)"
  proof -
    have "dot v1 d - (dot v1 d + dot v2 d) / 2 = k"
      by (simp add: k_def field_simps)
    then have "vsub (project_vector v1 d) ?pc = smul k d"
      by (simp add: project_vector_def vsub_smul_smul dc)
    then show ?thesis using normalize_smul_unit [OF assms(3) k] by simp
  qed
  have pp2: "normalize_vector (vsub (project_vector v2 d) ?pc) = Inr (smul (- sgn k) d)"
  proof -
    have "dot v2 d - (dot v1 d + dot v2 d) / 2 = - k"
      by (simp add: k_def field_simps)
    then have "vsub (project_vector v2 d) ?pc = smul (- k) d"
      by (simp add: project_vector_def vsub_smul_smul dc)
    moreover have "- k \<noteq> 0" using k by simp
    ultimately show ?thesis using normalize_smul_unit [OF assms(3), of "- k"] by simp
  qed
  from equalize_scaling_unit [OF assms(11)] obtain s where
    s: "equalize_scaling ?rc = Some s" and s2: "s\<^sup>2 = 1 - (linalg_norm ?rc)\<^sup>2"
    by blast
  define e1 where "e1 = vadd ?rc (smul (s * sgn k) d)"
  define e2 where "e2 = vadd ?rc (smul (s * (- sgn k)) d)"
  have sg: "(sgn k)\<^sup>2 = 1" "(- sgn k)\<^sup>2 = 1"
    using k by (simp_all add: sgn_real_def power2_eq_square)
  have t1: "(s * sgn k)\<^sup>2 = 1 - (linalg_norm ?rc)\<^sup>2"
    using s2 sg by (simp add: power_mult_distrib)
  have t2: "(s * (- sgn k))\<^sup>2 = 1 - (linalg_norm ?rc)\<^sup>2"
    using s2 sg by (simp add: power_mult_distrib)
  note g1 = equalized_geometry [OF assms(3) lrc orth t1, folded e1_def]
  note g2 = equalized_geometry [OF assms(3) lrc orth t2, folded e2_def]
  have E1: "equalized_vector ?rc (smul (sgn k) d) = Row e1"
    by (simp add: equalized_vector_def s e1_def smul_smul)
  have E2: "equalized_vector ?rc (smul (- sgn k) d) = Row e2"
    by (simp add: equalized_vector_def s e2_def smul_smul)
  have ne: "w1 \<noteq> w2"
  proof
    assume "w1 = w2"
    with assms(4,5,8,9) have "v1 = v2" by simp
    with assms(10) show False by simp
  qed
  let ?m2 = "update_word_vector (update_word_vector ?m w1 (Row e1)) w2 (Row e2)"
  have nv: "normalized_vectors ?m [w1, w2] = Inr [v1, v2]"
    using assms(4,5,8,9) by (simp add: ebind_def)
  have mem: "equalize_members d ?pc ?rc [(w1, v1), (w2, v2)] ?m = (Inr (), ?m2)"
    by (simp add: pp1 pp2 E1 E2)
  have set: "equalize_set (Some d) [w1, w2] ?m = (Inr (), ?m2)"
    unfolding equalize_set_def nv
    using mem by (simp add: project_reject_vector_def Let_def reject_vector_def)
  have loop: "equalize_loop (Some d) [[w1, w2]] ?m = (Inr (), ?m2)"
    by (simp add: set)
  let ?h = "set_self_model h a (init_sims_replace ?m2)"
  have eq: "equalize h a (Some [[w1, w2]]) = (Inr (), ?h)"
    using assms(2) loop by (simp add: equalize_def finish_def)
  from assms(1) have "model (objects h ! a) < length (models h)" by (simp add: valid_object_def)
  then have sm: "self_model ?h a = init_sims_replace ?m2"
    by (simp add: self_model_def set_self_model_def)
  have r1: "model_getitem ?m2 w1 = Inr (Row e1)" and r2: "model_getitem ?m2 w2 = Inr (Row e2)"
    using assms(4,5) ne by (simp_all add: model_getitem_update_word_vector get_vector_getitem)
  have f1: "get_vector (self_model ?h a) w1 = Inr e1"
    using r1 init_sims_row_unit [OF g1(3)]
    by (simp add: sm get_vector_getitem model_getitem_init_sims_replace)
  have f2: "get_vector (self_model ?h a) w2 = Inr e2"
    using r2 init_sims_row_unit [OF g2(3)]
    by (simp add: sm get_vector_getitem model_getitem_init_sims_replace)
  have "dot e1 d = - dot e2 d"
    using g1(1) g2(1) by (simp add: sgn_minus)
  with eq f1 f2 g1(2) g2(2) show ?thesis by blast
qed

theorem equalize_pair_symmetric_witness:
  "valid_object (example_heap (Some [1, 0])) 0 \<and> linalg_norm [1, 0] = 1 \<and>
   get_vector example_store ''he'' = Inr [1, 0] \<and> get_vector example_store ''she'' = Inr [0, 1] \<and>
   normalize_vector [1, 0] = Inr [1, 0] \<and> normalize_vector [0, 1] = Inr [0, 1] \<and>
   dot [1, 0] [1, 0] \<noteq> dot [0, 1] [1, 0] \<and>
   linalg_norm (reject_vector (np_mean [[1, 0], [0, 1]]) [1, 0]) \<le> 1 \<and>
   (\<exists>h' e1 e2. equalize (example_heap (Some [1, 0])) 0 (Some [[''he'', ''she'']]) = (Inr (), h') \<and>
      get_vector (self_model h' 0) ''he'' = Inr e1 \<and>
      get_vector (self_model h' 0) ''she'' = Inr e2 \<and>
      dot e1 [1, 0] = - dot e2 [1, 0] \<and>
      reject_vector e1 [1, 0] = reject_vector (np_mean [[1, 0], [0, 1]]) [1, 0] \<and>
      reject_vector e2 [1, 0] = reject_vector (np_mean [[1, 0], [0, 1]]) [1, 0])"
proof -
  have g1: "get_vector (self_model (example_heap (Some [1, 0])) 0) ''he'' = Inr [1, 0]"
    and g2: "get_vector (self_model (example_heap (Some [1, 0])) 0) ''she'' = Inr [0, 1]"
    by (simp_all add: example_self_model get_vector_def model_getitem_def example_store_def)
  have n1: "normalize_vector [1, 0] = Inr [1, 0]" and n2: "normalize_vector [0, 1] = Inr [0, 1]"
    by (simp_all add: normalize_vector_def linalg_norm_def)
  have p: "dot [1, 0] [1, 0] \<noteq> dot [0, 1] [1, 0]" by simp
  have r: "linalg_norm (reject_vector (np_mean [[1, 0], [0, 1]]) [1, 0]) \<le> 1"
    by (simp add: np_mean_def reject_vector_def project_vector_def linalg_norm_def)
  have l: "length [1, 0 :: real] = length [1, 0 :: real]" "length [0, 1 :: real] = length [1, 0 :: real]"
    by simp_all
  from equalize_pair_symmetric [OF example_valid example_direction unit_axis g1 g2 l n1 n2 p r]
  show ?thesis
    using example_valid unit_axis g1 g2 n1 n2 p r by (simp add: example_self_model)
qed

end
